theory Spec2Isabelle
  imports Main "HOL-Library.Sublist" "HOL-Library.Multiset" "HOL-Library.Product_Lexorder"
begin

text \<open>
  A model of todoist-tui, a terminal client for Todoist written in Go on the Bubble Tea
  framework: the API client's \<open>GetTodaysTasks\<close>, the cache's \<open>LoadTodaysTasks\<close> and
  \<open>IsStale\<close>, the fuzzy project matcher, and the controller (\<open>Update\<close> with its key
  handlers, and \<open>View\<close>), followed by the properties proved of them.
\<close>

section \<open>Go strings: bytes, runes and the library functions the program calls\<close>

text \<open>
  A Go \<open>string\<close> is a sequence of bytes, here a \<^typ>\<open>string\<close> (a list of 8-bit
  \<^typ>\<open>char\<close>). \<open>len(s)\<close> and \<open>s[i]\<close> count and read bytes, while
  \<open>for _, c := range s\<close> walks the runes (code points) that the UTF-8 decoder finds;
  a byte that starts no well-formed sequence is read as U+FFFD and one byte is consumed.
  A rune is modelled as a \<^typ>\<open>nat\<close>.
\<close>

definition RuneError :: nat where
  "RuneError = 65533"

definition cont_byte :: "nat \<Rightarrow> bool" where
  "cont_byte b = (128 \<le> b \<and> b \<le> 191)"

text \<open>The range of the second byte depends on the first (no overlong forms, no
  surrogates, nothing beyond U+10FFFF).\<close>

definition second_lo :: "nat \<Rightarrow> nat" where
  "second_lo b0 = (if b0 = 224 then 160 else if b0 = 240 then 144 else 128)"

definition second_hi :: "nat \<Rightarrow> nat" where
  "second_hi b0 = (if b0 = 237 then 159 else if b0 = 244 then 143 else 191)"

fun DecodeRuneInString :: "string \<Rightarrow> nat \<times> nat" where
  "DecodeRuneInString [] = (RuneError, 0)"
| "DecodeRuneInString (c # cs) =
     (let b0 = of_char c; bs = map of_char (take 3 cs) in
      if b0 < 128 then (b0, 1)
      else if 194 \<le> b0 \<and> b0 \<le> 223 then
        (case bs of
           b1 # _ \<Rightarrow> if cont_byte b1 then ((b0 mod 32) * 64 + b1 mod 64, 2) else (RuneError, 1)
         | _ \<Rightarrow> (RuneError, 1))
      else if 224 \<le> b0 \<and> b0 \<le> 239 then
        (case bs of
           b1 # b2 # _ \<Rightarrow>
             if second_lo b0 \<le> b1 \<and> b1 \<le> second_hi b0 \<and> cont_byte b2
             then ((b0 mod 16) * 4096 + (b1 mod 64) * 64 + b2 mod 64, 3)
             else (RuneError, 1)
         | _ \<Rightarrow> (RuneError, 1))
      else if 240 \<le> b0 \<and> b0 \<le> 244 then
        (case bs of
           b1 # b2 # b3 # _ \<Rightarrow>
             if second_lo b0 \<le> b1 \<and> b1 \<le> second_hi b0 \<and> cont_byte b2 \<and> cont_byte b3
             then ((b0 mod 8) * 262144 + (b1 mod 64) * 4096 + (b2 mod 64) * 64 + b3 mod 64, 4)
             else (RuneError, 1)
         | _ \<Rightarrow> (RuneError, 1))
      else (RuneError, 1))"

text \<open>The runes a \<open>range\<close> loop over the string visits, in order.\<close>

function runes :: "string \<Rightarrow> nat list" where
  "runes [] = []"
| "runes (c # cs) =
     (let (r, w) = DecodeRuneInString (c # cs) in r # runes (drop (w - 1) cs))"
  by pat_completeness auto
termination
  by (relation "measure length") auto

definition EncodeRune :: "nat \<Rightarrow> string" where
  "EncodeRune r =
     (if r < 128 then [char_of r]
      else if r < 2048 then [char_of (192 + r div 64), char_of (128 + r mod 64)]
      else if (55296 \<le> r \<and> r \<le> 57343) \<or> 1114111 < r then
        [char_of (239::nat), char_of (191::nat), char_of (189::nat)]
      else if r < 65536 then
        [char_of (224 + r div 4096), char_of (128 + (r div 64) mod 64), char_of (128 + r mod 64)]
      else
        [char_of (240 + r div 262144), char_of (128 + (r div 4096) mod 64),
         char_of (128 + (r div 64) mod 64), char_of (128 + r mod 64)])"

text \<open>
  \<open>strings.Map(mapping, s)\<close> for a mapping that drops no rune: the encodings of the
  mapped runes, concatenated.
\<close>

definition strings_Map :: "(nat \<Rightarrow> nat) \<Rightarrow> string \<Rightarrow> string" where
  "strings_Map mapping s = concat (map (\<lambda>r. EncodeRune (mapping r)) (runes s))"

definition ascii_lower :: "char \<Rightarrow> char" where
  "ascii_lower c = (if 65 \<le> (of_char c :: nat) \<and> (of_char c :: nat) \<le> 90
                    then char_of ((of_char c :: nat) + 32) else c)"

text \<open>
  \<open>strings.ToLower\<close>: a string of ASCII bytes only is lowered byte by byte; any other
  string goes through \<open>strings.Map(unicode.ToLower, s)\<close>. The case table
  \<open>unicode.ToLower\<close> is not part of the repository and is the parameter \<open>lower\<close>.
\<close>

definition strings_ToLower :: "(nat \<Rightarrow> nat) \<Rightarrow> string \<Rightarrow> string" where
  "strings_ToLower lower s =
     (if list_all (\<lambda>c. (of_char c :: nat) < 128) s then map ascii_lower s
      else strings_Map lower s)"

text \<open>
  \<open>unicode.IsSpace\<close>, and the test \<open>strings.TrimSpace(s) != ""\<close> that the form makes
  before it submits: trimming leaves nothing exactly when every rune is white space.
\<close>

definition unicode_IsSpace :: "nat \<Rightarrow> bool" where
  "unicode_IsSpace r =
     ((9 \<le> r \<and> r \<le> 13) \<or> r = 32 \<or> r = 133 \<or> r = 160 \<or> r = 5760 \<or>
      (8192 \<le> r \<and> r \<le> 8202) \<or> r = 8232 \<or> r = 8233 \<or> r = 8239 \<or> r = 8287 \<or> r = 12288)"

definition TrimSpace_nonempty :: "string \<Rightarrow> bool" where
  "TrimSpace_nonempty s = (\<not> list_all unicode_IsSpace (runes s))"

section \<open>Data model\<close>

text \<open>
  \<open>Due\<close>, \<open>TodoistTask\<close> and \<open>TodoistProject\<close> of the API client. The field
  \<open>String\<close> of \<open>Due\<close> is \<open>DueString\<close> here, and the fields of a project carry the
  prefix \<open>P_\<close>, since a task has an \<open>ID\<close> as well. A nil \<open>*Due\<close> is \<open>None\<close>.
  \<open>CreatedAt\<close>, a \<open>time.Time\<close>, is the instant in nanoseconds since the Unix epoch.
\<close>

record Due =
  Date :: string
  IsRecurring :: bool
  Datetime :: string
  DueString :: string
  Timezone :: string

record TodoistTask =
  ID :: string
  ProjectID :: string
  Content :: string
  Description :: string
  IsCompleted :: bool
  Labels :: "string list"
  Priority :: int
  Due :: "Due option"
  URL :: string
  CreatedAt :: int

record TodoistProject =
  P_ID :: string
  P_Name :: string
  P_Color :: string

section \<open>Fuzzy project matcher\<close>

text \<open>
  The inner loop of \<open>fuzzySearchProjects\<close>: \<open>queryIdx\<close> advances over the bytes of the
  lowered query while the runes of the lowered project name go by. The comparison
  \<open>char == rune(queryLower[queryIdx])\<close> widens one byte of the query to a rune.
\<close>

fun advance_queryIdx :: "nat list \<Rightarrow> string \<Rightarrow> nat \<Rightarrow> nat" where
  "advance_queryIdx [] queryLower queryIdx = queryIdx"
| "advance_queryIdx (char # rest) queryLower queryIdx =
     advance_queryIdx rest queryLower
       (if queryIdx < length queryLower \<and> char = of_char (queryLower ! queryIdx)
        then queryIdx + 1 else queryIdx)"

definition project_matches :: "(nat \<Rightarrow> nat) \<Rightarrow> string \<Rightarrow> TodoistProject \<Rightarrow> bool" where
  "project_matches lower queryLower project =
     (advance_queryIdx (runes (strings_ToLower lower (P_Name project))) queryLower 0
        = length queryLower)"

definition fuzzySearchProjects ::
  "(nat \<Rightarrow> nat) \<Rightarrow> TodoistProject list \<Rightarrow> string \<Rightarrow> TodoistProject list" where
  "fuzzySearchProjects lower projects query =
     (if query = [] then projects
      else filter (project_matches lower (strings_ToLower lower query)) projects)"

section \<open>The controller's state\<close>

datatype createTaskFormField = fieldContent | fieldPriority | fieldProject | fieldDeadline

record createTaskFormState =
  content :: string
  priority :: int
  projectID :: string
  projectName :: string
  selectedProjectIdx :: int
  projectSearch :: string
  filteredProjects :: "TodoistProject list"
  deadline :: string
  activeField :: createTaskFormField

text \<open>
  The \<open>model\<close> of the Bubble Tea program. The API client is a handle to the outside
  and is left out; \<open>error\<close> holds the message of a non-nil Go error.
\<close>

record model =
  tasks :: "TodoistTask list"
  loading :: bool
  error :: "string option"
  columns :: "string list"
  width :: int
  height :: int
  selectedIndex :: int
  showingPopup :: bool
  allTasks :: "TodoistTask list"
  projects :: "TodoistProject list"
  showingCreateTask :: bool
  creating :: bool
  createTaskForm :: createTaskFormState
  showingDeleteConfirm :: bool
  taskToDelete :: string

text \<open>
  A key press as \<open>Update\<close> looks at it: whether \<open>msg.Type\<close> is \<open>tea.KeyBackspace\<close>,
  the \<open>Alt\<close> flag, and the text \<open>msg.String()\<close> returns.
\<close>

record KeyMsg =
  key_Type_Backspace :: bool
  key_Alt :: bool
  key_String :: string

datatype Msg =
    WindowSizeMsg int int
  | KeyMsg KeyMsg
  | tasksLoadedMsg "TodoistTask list"
  | projectsLoadedMsg "TodoistProject list"
  | taskCreatedMsg TodoistTask
  | taskCompletedMsg string
  | taskDeletedMsg string
  | errorMsg string
  | otherMsg

text \<open>
  The commands of the program. \<open>OpenURL_then_nil url\<close> stands for the branches of
  \<open>Update\<close> that call \<open>browser.OpenURL(url)\<close> on the spot and then return the nil
  command.
\<close>

datatype Cmd =
    nil
  | Quit
  | loadTasks
  | loadProjects
  | completeTask string
  | createTaskWithDetails string int string string
  | deleteTask string
  | OpenURL_then_nil string

text \<open>The form as \<open>initialModel\<close>, the \<open>q\<close> key and \<open>esc\<close> set it.\<close>

definition blankForm :: "TodoistProject list \<Rightarrow> createTaskFormState" where
  "blankForm ps =
     \<lparr>content = [], priority = 1, projectID = [], projectName = ''Inbox'',
      selectedProjectIdx = - 1, projectSearch = [], filteredProjects = ps,
      deadline = ''today'', activeField = fieldContent\<rparr>"

text \<open>
  \<open>initialModel\<close>: without a token every field but \<open>error\<close> keeps Go's zero value.
\<close>

definition initialModel :: "string \<Rightarrow> string list \<Rightarrow> model" where
  "initialModel token cols =
     (if token = [] then
        \<lparr>tasks = [], loading = False,
         error = Some ''TODOIST_TOKEN environment variable is required'',
         columns = [], width = 0, height = 0, selectedIndex = 0, showingPopup = False,
         allTasks = [], projects = [], showingCreateTask = False, creating = False,
         createTaskForm =
           \<lparr>content = [], priority = 0, projectID = [], projectName = [],
            selectedProjectIdx = 0, projectSearch = [], filteredProjects = [],
            deadline = [], activeField = fieldContent\<rparr>,
         showingDeleteConfirm = False, taskToDelete = []\<rparr>
      else
        \<lparr>tasks = [], loading = True, error = None, columns = cols, width = 80, height = 24,
         selectedIndex = - 1, showingPopup = False, allTasks = [], projects = [],
         showingCreateTask = False, creating = False, createTaskForm = blankForm [],
         showingDeleteConfirm = False, taskToDelete = []\<rparr>)"

text \<open>
  \<open>Init\<close>: the commands the program starts with, the batch of \<open>loadTasks\<close> and
  \<open>loadProjects\<close>, or none when the model holds an error already. \<open>loadProjects\<close> is
  the one command that delivers a \<open>projectsLoadedMsg\<close>.
\<close>

definition Init :: "model \<Rightarrow> Cmd list" where
  "Init m = (if error m \<noteq> None then [] else [loadTasks, loadProjects])"

text \<open>
  Indexing a slice panics outside \<open>0 \<le> i < len\<close>; \<open>None\<close> is the panic.
\<close>

definition index :: "'a list \<Rightarrow> int \<Rightarrow> 'a option" where
  "index xs i = (if 0 \<le> i \<and> i < int (length xs) then Some (xs ! nat i) else None)"

section \<open>The create-task form\<close>

definition updateProjectFilter :: "(nat \<Rightarrow> nat) \<Rightarrow> model \<Rightarrow> model" where
  "updateProjectFilter lower m =
     (let f = createTaskForm m;
          filtered = fuzzySearchProjects lower (projects m) (projectSearch f)
      in case filtered of
           project # _ \<Rightarrow>
             m\<lparr>createTaskForm := f\<lparr>filteredProjects := filtered, selectedProjectIdx := 0,
                                   projectID := P_ID project, projectName := P_Name project\<rparr>\<rparr>
         | [] \<Rightarrow>
             m\<lparr>createTaskForm := f\<lparr>filteredProjects := filtered, selectedProjectIdx := - 1,
                                   projectID := [], projectName := ''No matches''\<rparr>\<rparr>)"

text \<open>A key that types a character: \<open>len(msg.String()) == 1\<close> and not the escape byte.\<close>

definition typed_char :: "string \<Rightarrow> bool" where
  "typed_char s = (length s = 1 \<and> s \<noteq> [char_of (27::nat)])"

definition nextField :: "createTaskFormField \<Rightarrow> createTaskFormField" where
  "nextField f = (case f of fieldContent \<Rightarrow> fieldPriority | fieldPriority \<Rightarrow> fieldProject
                  | fieldProject \<Rightarrow> fieldDeadline | fieldDeadline \<Rightarrow> fieldContent)"

definition prevField :: "createTaskFormField \<Rightarrow> createTaskFormField" where
  "prevField f = (case f of fieldContent \<Rightarrow> fieldDeadline | fieldPriority \<Rightarrow> fieldContent
                  | fieldProject \<Rightarrow> fieldPriority | fieldDeadline \<Rightarrow> fieldProject)"

text \<open>
  The two arrow branches of the project field: move \<open>selectedProjectIdx\<close> with
  wraparound, then read \<open>filteredProjects[selectedProjectIdx]\<close>.
\<close>

definition selectProject :: "model \<Rightarrow> int \<Rightarrow> model option" where
  "selectProject m i =
     (let f = createTaskForm m in
      case index (filteredProjects f) i of
        None \<Rightarrow> None
      | Some project \<Rightarrow>
          Some (m\<lparr>createTaskForm := f\<lparr>selectedProjectIdx := i, projectID := P_ID project,
                                       projectName := P_Name project\<rparr>\<rparr>))"

definition projectFieldInput :: "(nat \<Rightarrow> nat) \<Rightarrow> model \<Rightarrow> string \<Rightarrow> model option" where
  "projectFieldInput lower m s =
     (let f = createTaskForm m; n = int (length (filteredProjects f)) in
      if s = ''right'' \<or> s = ''down'' then
        (if 0 < n then
           selectProject m (if selectedProjectIdx f < n - 1 then selectedProjectIdx f + 1 else 0)
         else Some m)
      else if s = ''left'' \<or> s = ''up'' then
        (if 0 < n then
           selectProject m (if 0 < selectedProjectIdx f then selectedProjectIdx f - 1 else n - 1)
         else Some m)
      else if typed_char s then
        Some (updateProjectFilter lower
                (m\<lparr>createTaskForm := f\<lparr>projectSearch := projectSearch f @ s\<rparr>\<rparr>))
      else Some m)"

text \<open>The \<open>backspace\<close> case of \<open>handleCreateTaskInput\<close>.\<close>

definition formBackspace :: "(nat \<Rightarrow> nat) \<Rightarrow> model \<Rightarrow> model" where
  "formBackspace lower m =
     (let f = createTaskForm m in
      case activeField f of
        fieldContent \<Rightarrow>
          if 0 < length (content f)
          then m\<lparr>createTaskForm := f\<lparr>content := butlast (content f)\<rparr>\<rparr> else m
      | fieldPriority \<Rightarrow> m
      | fieldProject \<Rightarrow>
          if 0 < length (projectSearch f)
          then updateProjectFilter lower
                 (m\<lparr>createTaskForm := f\<lparr>projectSearch := butlast (projectSearch f)\<rparr>\<rparr>)
          else m
      | fieldDeadline \<Rightarrow>
          if 0 < length (deadline f)
          then m\<lparr>createTaskForm := f\<lparr>deadline := butlast (deadline f)\<rparr>\<rparr> else m)"

text \<open>The \<open>default\<close> case: the key goes to the active field.\<close>

definition formFieldInput :: "(nat \<Rightarrow> nat) \<Rightarrow> model \<Rightarrow> string \<Rightarrow> model option" where
  "formFieldInput lower m s =
     (let f = createTaskForm m in
      case activeField f of
        fieldContent \<Rightarrow>
          Some (if typed_char s then m\<lparr>createTaskForm := f\<lparr>content := content f @ s\<rparr>\<rparr> else m)
      | fieldPriority \<Rightarrow>
          Some (if s = ''right'' then
                  (if priority f < 4
                   then m\<lparr>createTaskForm := f\<lparr>priority := priority f + 1\<rparr>\<rparr> else m)
                else if s = ''left'' then
                  (if 1 < priority f
                   then m\<lparr>createTaskForm := f\<lparr>priority := priority f - 1\<rparr>\<rparr> else m)
                else m)
      | fieldProject \<Rightarrow> projectFieldInput lower m s
      | fieldDeadline \<Rightarrow>
          Some (if typed_char s then m\<lparr>createTaskForm := f\<lparr>deadline := deadline f @ s\<rparr>\<rparr> else m))"

definition handleCreateTaskInput ::
  "(nat \<Rightarrow> nat) \<Rightarrow> model \<Rightarrow> KeyMsg \<Rightarrow> (model \<times> Cmd) option" where
  "handleCreateTaskInput lower m k =
     (let s = key_String k; f = createTaskForm m in
      if creating m then Some (m, nil)
      else if s = ''esc'' \<or> s = ''escape'' then
        Some (m\<lparr>showingCreateTask := False, createTaskForm := blankForm (projects m)\<rparr>, nil)
      else if s = ''enter'' then
        (if TrimSpace_nonempty (content f) then
           Some (m\<lparr>creating := True\<rparr>,
                 createTaskWithDetails (content f) (priority f) (projectID f) (deadline f))
         else Some (m, nil))
      else if s = ''tab'' \<or> s = ''down'' then
        Some (m\<lparr>createTaskForm := f\<lparr>activeField := nextField (activeField f)\<rparr>\<rparr>, nil)
      else if s = ''shift+tab'' \<or> s = ''up'' then
        Some (m\<lparr>createTaskForm := f\<lparr>activeField := prevField (activeField f)\<rparr>\<rparr>, nil)
      else if s = ''backspace'' then Some (formBackspace lower m, nil)
      else
        (case formFieldInput lower m s of
           None \<Rightarrow> None
         | Some m' \<Rightarrow> Some (m', nil)))"

section \<open>Key handlers of the other views\<close>

definition has_selection :: "model \<Rightarrow> bool" where
  "has_selection m = (0 \<le> selectedIndex m \<and> selectedIndex m < int (length (allTasks m)))"

text \<open>\<open>m.allTasks[m.selectedIndex]\<close>, read only under the guard \<open>has_selection\<close>.\<close>

definition selectedTask :: "model \<Rightarrow> TodoistTask" where
  "selectedTask m = allTasks m ! nat (selectedIndex m)"

text \<open>The cases \<open>up\<close>/\<open>k\<close> and \<open>down\<close>/\<open>j\<close> of the list view: move with wraparound.\<close>

definition moveUp :: "model \<Rightarrow> model" where
  "moveUp m =
     (let n = int (length (allTasks m)) in
      if 0 < n then
        (if selectedIndex m \<le> 0 then m\<lparr>selectedIndex := n - 1\<rparr>
         else m\<lparr>selectedIndex := selectedIndex m - 1\<rparr>)
      else m)"

definition moveDown :: "model \<Rightarrow> model" where
  "moveDown m =
     (let n = int (length (allTasks m)) in
      if 0 < n then
        (if n - 1 \<le> selectedIndex m then m\<lparr>selectedIndex := 0\<rparr>
         else m\<lparr>selectedIndex := selectedIndex m + 1\<rparr>)
      else m)"

definition handleMainViewInput :: "model \<Rightarrow> KeyMsg \<Rightarrow> model \<times> Cmd" where
  "handleMainViewInput m k =
     (let s = key_String k in
      if s = ''esc'' \<or> s = ''escape'' then (m, Quit)
      else if s = ''r'' then
        (if \<not> loading m \<and> error m = None then (m\<lparr>loading := True\<rparr>, loadTasks) else (m, nil))
      else if s = ''up'' \<or> s = ''k'' then (moveUp m, nil)
      else if s = ''down'' \<or> s = ''j'' then (moveDown m, nil)
      else if s = ''enter'' \<or> s = '' '' then
        (if has_selection m then (m\<lparr>showingPopup := True\<rparr>, nil) else (m, nil))
      else if s = ''o'' \<or> s = ''O'' then
        (if has_selection m then (m, OpenURL_then_nil (URL (selectedTask m))) else (m, nil))
      else if s = ''e'' \<or> s = ''E'' then
        (if has_selection m then (m, completeTask (ID (selectedTask m))) else (m, nil))
      else if s = ''q'' \<or> s = ''Q'' then
        (if \<not> creating m
         then (m\<lparr>showingCreateTask := True, createTaskForm := blankForm (projects m)\<rparr>, nil)
         else (m, nil))
      else (m, nil))"

definition handlePopupInput :: "model \<Rightarrow> KeyMsg \<Rightarrow> model \<times> Cmd" where
  "handlePopupInput m k =
     (let s = key_String k in
      if s = ''esc'' \<or> s = ''escape'' then (m\<lparr>showingPopup := False\<rparr>, nil)
      else if s = ''o'' \<or> s = ''O'' then
        (if has_selection m then (m, OpenURL_then_nil (URL (selectedTask m))) else (m, nil))
      else if s = ''e'' \<or> s = ''E'' then
        (if has_selection m
         then (m\<lparr>showingPopup := False\<rparr>, completeTask (ID (selectedTask m)))
         else (m, nil))
      else (m, nil))"

definition handleDeleteConfirmInput :: "model \<Rightarrow> KeyMsg \<Rightarrow> model \<times> Cmd" where
  "handleDeleteConfirmInput m k =
     (let s = key_String k in
      if s = ''y'' \<or> s = ''Y'' then
        (m\<lparr>showingDeleteConfirm := False, taskToDelete := []\<rparr>, deleteTask (taskToDelete m))
      else if s = ''n'' \<or> s = ''N'' \<or> s = ''esc'' \<or> s = ''escape'' then
        (m\<lparr>showingDeleteConfirm := False, taskToDelete := []\<rparr>, nil)
      else (m, nil))"

section \<open>Update\<close>

text \<open>
  The selection after \<open>tasksLoadedMsg\<close>: the first task when nothing was selected, and
  an index beyond the new list is reset to the first task, or to \<open>-1\<close> without tasks.
\<close>

definition loadedSelection :: "int \<Rightarrow> int \<Rightarrow> int" where
  "loadedSelection n i =
     (let i1 = (if 0 < n \<and> i = - 1 then 0 else i) in
      if n \<le> i1 then (if 0 < n then 0 else - 1) else i1)"

text \<open>
  The selection after \<open>taskCompletedMsg\<close> and \<open>taskDeletedMsg\<close>: an index beyond the
  shortened list moves to its last task, or to \<open>-1\<close> without tasks.
\<close>

definition removedSelection :: "int \<Rightarrow> int \<Rightarrow> int" where
  "removedSelection n i = (if n \<le> i then (if 0 < n then n - 1 else - 1) else i)"

definition removeTask :: "model \<Rightarrow> string \<Rightarrow> model" where
  "removeTask m taskID =
     (let updatedTasks = filter (\<lambda>task. ID task \<noteq> taskID) (allTasks m) in
      m\<lparr>allTasks := updatedTasks, tasks := updatedTasks,
        selectedIndex := removedSelection (int (length updatedTasks)) (selectedIndex m)\<rparr>)"

text \<open>The form after a task was created: the first project again, if there is one.\<close>

definition createdForm :: "TodoistProject list \<Rightarrow> createTaskFormState" where
  "createdForm ps =
     (case ps of
        [] \<Rightarrow> blankForm ps
      | p # _ \<Rightarrow> (blankForm ps)\<lparr>projectID := P_ID p, projectName := P_Name p,
                                 selectedProjectIdx := 0\<rparr>)"

text \<open>
  \<open>Update\<close>. \<open>None\<close> is a run-time panic (an index out of range). The delete
  combination is tested as \<open>Type == KeyBackspace && Alt\<close>: the second disjunct of the
  source's test, with \<open>runtime.GOOS == "darwin"\<close>, implies the first.
\<close>

definition Update :: "(nat \<Rightarrow> nat) \<Rightarrow> model \<Rightarrow> Msg \<Rightarrow> (model \<times> Cmd) option" where
  "Update lower m msg =
     (case msg of
        WindowSizeMsg w h \<Rightarrow> Some (m\<lparr>width := w, height := h\<rparr>, nil)
      | KeyMsg k \<Rightarrow>
          if key_String k = ''ctrl+c'' then Some (m, Quit)
          else if key_Type_Backspace k \<and> key_Alt k \<and> \<not> showingDeleteConfirm m \<and>
                  \<not> showingCreateTask m \<and> has_selection m
          then Some (m\<lparr>showingPopup := False, showingDeleteConfirm := True,
                       taskToDelete := ID (selectedTask m)\<rparr>, nil)
          else if showingDeleteConfirm m then Some (handleDeleteConfirmInput m k)
          else if showingCreateTask m then handleCreateTaskInput lower m k
          else if showingPopup m then Some (handlePopupInput m k)
          else Some (handleMainViewInput m k)
      | tasksLoadedMsg ts \<Rightarrow>
          Some (m\<lparr>tasks := ts, allTasks := ts, loading := False, error := None,
                  selectedIndex := loadedSelection (int (length ts)) (selectedIndex m)\<rparr>, nil)
      | projectsLoadedMsg ps \<Rightarrow>
          Some (case ps of
                  [] \<Rightarrow> m\<lparr>projects := ps,
                          createTaskForm := (createTaskForm m)\<lparr>filteredProjects := ps\<rparr>\<rparr>
                | p # _ \<Rightarrow>
                    m\<lparr>projects := ps,
                      createTaskForm := (createTaskForm m)
                        \<lparr>filteredProjects := ps, selectedProjectIdx := 0,
                         projectID := P_ID p, projectName := P_Name p\<rparr>\<rparr>, nil)
      | taskCreatedMsg t \<Rightarrow>
          Some (m\<lparr>creating := False, showingCreateTask := False,
                  createTaskForm := createdForm (projects m), loading := True\<rparr>, loadTasks)
      | taskCompletedMsg taskID \<Rightarrow> Some (removeTask m taskID, nil)
      | taskDeletedMsg taskID \<Rightarrow> Some (removeTask m taskID, nil)
      | errorMsg e \<Rightarrow> Some (m\<lparr>error := Some e, loading := False\<rparr>, nil)
      | otherMsg \<Rightarrow> Some (m, nil))"

text \<open>Feeding a sequence of messages to \<open>Update\<close>, one after the other.\<close>

fun run :: "(nat \<Rightarrow> nat) \<Rightarrow> model \<Rightarrow> Msg list \<Rightarrow> model option" where
  "run lower m [] = Some m"
| "run lower m (msg # msgs) =
     (case Update lower m msg of
        None \<Rightarrow> None
      | Some (m', c) \<Rightarrow> run lower m' msgs)"

section \<open>Dates\<close>

text \<open>
  \<open>time.Parse("2006-01-02", s)\<close> of the Go library: four digits, a dash, two digits, a
  dash, two digits and nothing more; the month within 1..12 and the day within the
  month. The parsed day is a triple (year, month, day), and \<open>Before\<close> is the
  lexicographic order \<open><\<close> on triples.
\<close>

definition is_digit :: "char \<Rightarrow> bool" where
  "is_digit c = (48 \<le> (of_char c :: nat) \<and> (of_char c :: nat) \<le> 57)"

definition digit :: "char \<Rightarrow> nat" where
  "digit c = of_char c - 48"

definition isLeap :: "nat \<Rightarrow> bool" where
  "isLeap year = (year mod 4 = 0 \<and> (year mod 100 \<noteq> 0 \<or> year mod 400 = 0))"

definition daysIn :: "nat \<Rightarrow> nat \<Rightarrow> nat" where
  "daysIn month year =
     (if month = 2 then (if isLeap year then 29 else 28)
      else if month = 4 \<or> month = 6 \<or> month = 9 \<or> month = 11 then 30 else 31)"

definition time_Parse :: "string \<Rightarrow> (nat \<times> nat \<times> nat) option" where
  "time_Parse s =
     (if length s = 10 \<and> is_digit (s ! 0) \<and> is_digit (s ! 1) \<and> is_digit (s ! 2) \<and>
         is_digit (s ! 3) \<and> s ! 4 = CHR ''-'' \<and> is_digit (s ! 5) \<and> is_digit (s ! 6) \<and>
         s ! 7 = CHR ''-'' \<and> is_digit (s ! 8) \<and> is_digit (s ! 9)
      then
        (let year = digit (s ! 0) * 1000 + digit (s ! 1) * 100 + digit (s ! 2) * 10 + digit (s ! 3);
             month = digit (s ! 5) * 10 + digit (s ! 6);
             day = digit (s ! 8) * 10 + digit (s ! 9)
         in if 1 \<le> month \<and> month \<le> 12 \<and> 1 \<le> day \<and> day \<le> daysIn month year
            then Some (year, month, day) else None)
      else None)"

section \<open>Today's tasks: the API client and the cache\<close>

definition isOverdue :: "string \<Rightarrow> string \<Rightarrow> bool" where
  "isOverdue taskDate today =
     (case time_Parse taskDate of
        None \<Rightarrow> False
      | Some taskTime \<Rightarrow>
          (case time_Parse today of
             None \<Rightarrow> False
           | Some todayTime \<Rightarrow> taskTime < todayTime))"

text \<open>The test of the filter loop of \<open>GetTodaysTasks\<close>.\<close>

definition dueTodayOrOverdue :: "string \<Rightarrow> TodoistTask \<Rightarrow> bool" where
  "dueTodayOrOverdue today task =
     (case Due task of
        None \<Rightarrow> False
      | Some due \<Rightarrow> Date due = today \<or> isOverdue (Date due) today)"

text \<open>
  The comparison handed to \<open>sort.Slice\<close>. It reads \<open>Due.Date\<close> of both tasks; the
  slice it sorts holds tasks with a \<open>Due\<close> only (lemma \<open>dueTodayOrOverdue_Due\<close> below),
  so the last case, a nil \<open>Due\<close>, is never met.
\<close>

definition lessTodaysTasks :: "string \<Rightarrow> TodoistTask \<Rightarrow> TodoistTask \<Rightarrow> bool" where
  "lessTodaysTasks today taskI taskJ =
     (case (Due taskI, Due taskJ) of
        (Some dueI, Some dueJ) \<Rightarrow>
          (let isOverdueI = isOverdue (Date dueI) today;
               isOverdueJ = isOverdue (Date dueJ) today
           in if isOverdueI \<and> \<not> isOverdueJ then True
              else if \<not> isOverdueI \<and> isOverdueJ then False
              else
                (case (time_Parse (Date dueI), time_Parse (Date dueJ)) of
                   (Some dateI, Some dateJ) \<Rightarrow>
                     if isOverdueI \<and> isOverdueJ then dateI < dateJ
                     else Priority taskJ < Priority taskI
                 | _ \<Rightarrow> Priority taskJ < Priority taskI))
      | _ \<Rightarrow> False)"

text \<open>
  \<open>GetTodaysTasks\<close>. The two HTTP calls are inputs: \<open>projectsErr\<close> is the error of
  \<open>loadProjects\<close>, if any, and \<open>fetched\<close> the outcome of \<open>GetTasks\<close>. \<open>today\<close> is
  \<open>time.Now().Format("2006-01-02")\<close>. \<open>sort.Slice\<close> belongs to the Go library and is
  the parameter \<open>sortSlice\<close>.
\<close>

definition GetTodaysTasks ::
  "((TodoistTask \<Rightarrow> TodoistTask \<Rightarrow> bool) \<Rightarrow> TodoistTask list \<Rightarrow> TodoistTask list) \<Rightarrow>
   string \<Rightarrow> string option \<Rightarrow> string + TodoistTask list \<Rightarrow> string + TodoistTask list" where
  "GetTodaysTasks sortSlice today projectsErr fetched =
     (case projectsErr of
        Some err \<Rightarrow> Inl (''failed to load projects: '' @ err)
      | None \<Rightarrow>
          (case fetched of
             Inl err \<Rightarrow> Inl err
           | Inr fetchedTasks \<Rightarrow>
               Inr (sortSlice (lessTodaysTasks today)
                      (filter (dueTodayOrOverdue today) fetchedTasks))))"

text \<open>The cache repeats the filter and the comparison with its own copy of \<open>isOverdue\<close>.\<close>

definition isCacheTaskOverdue :: "string \<Rightarrow> string \<Rightarrow> bool" where
  "isCacheTaskOverdue taskDate today =
     (case time_Parse taskDate of
        None \<Rightarrow> False
      | Some taskTime \<Rightarrow>
          (case time_Parse today of
             None \<Rightarrow> False
           | Some todayTime \<Rightarrow> taskTime < todayTime))"

definition cacheDueTodayOrOverdue :: "string \<Rightarrow> TodoistTask \<Rightarrow> bool" where
  "cacheDueTodayOrOverdue today task =
     (case Due task of
        None \<Rightarrow> False
      | Some due \<Rightarrow> Date due = today \<or> isCacheTaskOverdue (Date due) today)"

definition lessCachedTasks :: "string \<Rightarrow> TodoistTask \<Rightarrow> TodoistTask \<Rightarrow> bool" where
  "lessCachedTasks today taskI taskJ =
     (case (Due taskI, Due taskJ) of
        (Some dueI, Some dueJ) \<Rightarrow>
          (let isOverdueI = isCacheTaskOverdue (Date dueI) today;
               isOverdueJ = isCacheTaskOverdue (Date dueJ) today
           in if isOverdueI \<and> \<not> isOverdueJ then True
              else if \<not> isOverdueI \<and> isOverdueJ then False
              else
                (case (time_Parse (Date dueI), time_Parse (Date dueJ)) of
                   (Some dateI, Some dateJ) \<Rightarrow>
                     if isOverdueI \<and> isOverdueJ then dateI < dateJ
                     else Priority taskJ < Priority taskI
                 | _ \<Rightarrow> Priority taskJ < Priority taskI))
      | _ \<Rightarrow> False)"

text \<open>\<open>LoadTodaysTasks\<close>; \<open>loaded\<close> is the outcome of \<open>LoadTasks\<close>.\<close>

definition LoadTodaysTasks ::
  "((TodoistTask \<Rightarrow> TodoistTask \<Rightarrow> bool) \<Rightarrow> TodoistTask list \<Rightarrow> TodoistTask list) \<Rightarrow>
   string \<Rightarrow> string + TodoistTask list \<Rightarrow> string + TodoistTask list" where
  "LoadTodaysTasks sortSlice today loaded =
     (case loaded of
        Inl err \<Rightarrow> Inl err
      | Inr cachedTasks \<Rightarrow>
          Inr (sortSlice (lessCachedTasks today)
                 (filter (cacheDueTodayOrOverdue today) cachedTasks)))"

section \<open>Cache staleness\<close>

text \<open>
  Instants and durations are counted in nanoseconds. \<open>time.Since(t)\<close> is
  \<open>time.Now().Sub(t)\<close>, a 64-bit \<open>Duration\<close>: a difference beyond its range is
  replaced by the largest or smallest \<open>Duration\<close>.
\<close>

definition maxDuration :: int where
  "maxDuration = 2 ^ 63 - 1"

definition minDuration :: int where
  "minDuration = - (2 ^ 63)"

definition time_Since :: "int \<Rightarrow> int \<Rightarrow> int" where
  "time_Since now t =
     (let d = now - t in
      if maxDuration < d then maxDuration else if d < minDuration then minDuration else d)"

text \<open>
  \<open>IsStale\<close>. \<open>metadata key\<close> is what the query for \<open>key\<close> in \<open>cache_metadata\<close>
  scans (\<open>None\<close> when the query or the scan fails, as it does without a row);
  \<open>parseRFC3339\<close> is \<open>time.Parse(time.RFC3339, _)\<close> and \<open>now\<close> the clock.
\<close>

definition IsStale ::
  "(string \<Rightarrow> string option) \<Rightarrow> (string \<Rightarrow> int option) \<Rightarrow> int \<Rightarrow> string \<Rightarrow> int \<Rightarrow> bool" where
  "IsStale metadata parseRFC3339 now cacheType maxAge =
     (case metadata (cacheType @ ''_last_updated'') of
        None \<Rightarrow> True
      | Some lastUpdated \<Rightarrow>
          (case parseRFC3339 lastUpdated of
             None \<Rightarrow> True
           | Some updatedTime \<Rightarrow> maxAge < time_Since now updatedTime))"

section \<open>View\<close>

text \<open>
  What \<open>View\<close> puts on the screen, without the styling: the error screen, the loading
  screen, or the two task sections, the selected index and the overlay that is open.
\<close>

definition isTaskOverdue :: "string \<Rightarrow> TodoistTask \<Rightarrow> bool" where
  "isTaskOverdue today task =
     (case Due task of
        None \<Rightarrow> False
      | Some due \<Rightarrow>
          (case time_Parse (Date due) of
             None \<Rightarrow> False
           | Some taskTime \<Rightarrow>
               (case time_Parse today of
                  None \<Rightarrow> False
                | Some todayTime \<Rightarrow> taskTime < todayTime)))"

datatype overlay = NoOverlay | TaskPopup | CreateTaskForm | DeleteConfirmDialog

datatype screen =
    ErrorScreen string
  | LoadingScreen
  | TaskScreen "TodoistTask list" "TodoistTask list" int overlay

definition View :: "string \<Rightarrow> model \<Rightarrow> screen" where
  "View today m =
     (case error m of
        Some e \<Rightarrow> ErrorScreen e
      | None \<Rightarrow>
          if loading m then LoadingScreen
          else TaskScreen (filter (isTaskOverdue today) (tasks m))
                 (filter (\<lambda>t. \<not> isTaskOverdue today t) (tasks m))
                 (selectedIndex m)
                 (if showingPopup m then TaskPopup
                  else if showingCreateTask m then CreateTaskForm
                  else if showingDeleteConfirm m then DeleteConfirmDialog
                  else NoOverlay))"

section \<open>Reachable states and the predicates of the properties\<close>

text \<open>
  The states the program can be in: the initial model, and whatever \<open>Update\<close> makes
  of a reachable state and any message.
\<close>

inductive reachable :: "(nat \<Rightarrow> nat) \<Rightarrow> string \<Rightarrow> string list \<Rightarrow> model \<Rightarrow> bool"
  for lower token cols where
  start: "reachable lower token cols (initialModel token cols)"
| step: "reachable lower token cols m \<Longrightarrow> Update lower m msg = Some (m', c) \<Longrightarrow>
         reachable lower token cols m'"

text \<open>The selection is \<open>-1\<close> on an empty list and an index into a list with tasks.\<close>

definition selection_ok :: "model \<Rightarrow> bool" where
  "selection_ok m =
     (if allTasks m = [] then selectedIndex m = - 1
      else 0 \<le> selectedIndex m \<and> selectedIndex m < int (length (allTasks m)))"

text \<open>
  What holds of the selection in every reachable state, also before the first list of
  tasks has arrived in a program started without a token (selection 0, no tasks).
\<close>

definition selection_weak :: "model \<Rightarrow> bool" where
  "selection_weak m =
     (- 1 \<le> selectedIndex m \<and> (allTasks m \<noteq> [] \<longrightarrow> 0 \<le> selectedIndex m))"

text \<open>The three messages that change the task list.\<close>

fun list_event :: "Msg \<Rightarrow> bool" where
  "list_event (tasksLoadedMsg ts) = True"
| "list_event (taskCompletedMsg i) = True"
| "list_event (taskDeletedMsg i) = True"
| "list_event _ = False"

text \<open>What a step leaves alone: the lists and the selection, or all but a move of it.\<close>

definition frame :: "model \<Rightarrow> model \<Rightarrow> bool" where
  "frame m m' = (tasks m' = tasks m \<and> allTasks m' = allTasks m \<and>
     selectedIndex m' = selectedIndex m \<and> projects m' = projects m)"

definition moved :: "model \<Rightarrow> model \<Rightarrow> bool" where
  "moved m m' =
     (tasks m' = tasks m \<and> allTasks m' = allTasks m \<and> projects m' = projects m \<and>
      (selectedIndex m' = selectedIndex m \<or> selectedIndex m' = selectedIndex (moveUp m) \<or>
       selectedIndex m' = selectedIndex (moveDown m)))"

text \<open>Sample data for the concrete runs.\<close>

definition sampleTask :: "string \<Rightarrow> int \<Rightarrow> string \<Rightarrow> TodoistTask" where
  "sampleTask i p d =
     \<lparr>ID = i, ProjectID = ''p1'', Content = ''task'', Description = [], IsCompleted = False,
      Labels = [], Priority = p,
      Due = Some \<lparr>Date = d, IsRecurring = False, Datetime = [], DueString = [], Timezone = []\<rparr>,
      URL = [], CreatedAt = 0\<rparr>"

definition key :: "string \<Rightarrow> Msg" where
  "key s = KeyMsg \<lparr>key_Type_Backspace = False, key_Alt = False, key_String = s\<rparr>"

definition project :: "string \<Rightarrow> string \<Rightarrow> TodoistProject" where
  "project i n = \<lparr>P_ID = i, P_Name = n, P_Color = ''grey''\<rparr>"

section \<open>sort.Slice\<close>

text \<open>
  \<open>sort.Slice\<close> is part of the Go library. What its documentation promises is the
  contract below: the slice is permuted, and it ends sorted by the comparison when the
  comparison is a transitive ordering (irreflexive, transitive, and with a transitive
  "neither is less"). The documentation says as well that the sort is not stable.
\<close>

definition transitive_ordering :: "('a \<Rightarrow> 'a \<Rightarrow> bool) \<Rightarrow> 'a set \<Rightarrow> bool" where
  "transitive_ordering lt A =
     ((\<forall>x\<in>A. \<not> lt x x) \<and>
      (\<forall>x\<in>A. \<forall>y\<in>A. \<forall>z\<in>A. lt x y \<and> lt y z \<longrightarrow> lt x z) \<and>
      (\<forall>x\<in>A. \<forall>y\<in>A. \<forall>z\<in>A. \<not> lt x y \<and> \<not> lt y z \<longrightarrow> \<not> lt x z))"

definition sort_Slice_contract :: "(('a \<Rightarrow> 'a \<Rightarrow> bool) \<Rightarrow> 'a list \<Rightarrow> 'a list) \<Rightarrow> bool" where
  "sort_Slice_contract sortSlice =
     (\<forall>lt xs. mset (sortSlice lt xs) = mset xs \<and>
        (transitive_ordering lt (set xs) \<longrightarrow>
           sorted_wrt (\<lambda>a b. \<not> lt b a) (sortSlice lt xs)))"

text \<open>A sort that meets the contract: insertion from the left, used in the examples.\<close>

fun insert_sorted :: "('a \<Rightarrow> 'a \<Rightarrow> bool) \<Rightarrow> 'a \<Rightarrow> 'a list \<Rightarrow> 'a list" where
  "insert_sorted lt x [] = [x]"
| "insert_sorted lt x (y # ys) =
     (if lt x y then x # y # ys else y # insert_sorted lt x ys)"

definition insertion_sort :: "('a \<Rightarrow> 'a \<Rightarrow> bool) \<Rightarrow> 'a list \<Rightarrow> 'a list" where
  "insertion_sort lt xs = foldl (\<lambda>sorted x. insert_sorted lt x sorted) [] xs"

text \<open>
  The words of the claims about a task and a reference day \<open>T\<close>: the day it is due,
  overdue (due before \<open>T\<close>), due today (due on \<open>T\<close>), due on or before \<open>T\<close>.
\<close>

definition due_day :: "TodoistTask \<Rightarrow> (nat \<times> nat \<times> nat) option" where
  "due_day task = (case Due task of None \<Rightarrow> None | Some due \<Rightarrow> time_Parse (Date due))"

definition overdue_on :: "nat \<times> nat \<times> nat \<Rightarrow> TodoistTask \<Rightarrow> bool" where
  "overdue_on T task = (case due_day task of None \<Rightarrow> False | Some d \<Rightarrow> d < T)"

definition due_on :: "nat \<times> nat \<times> nat \<Rightarrow> TodoistTask \<Rightarrow> bool" where
  "due_on T task = (due_day task = Some T)"

definition on_or_before :: "nat \<times> nat \<times> nat \<Rightarrow> TodoistTask \<Rightarrow> bool" where
  "on_or_before T task = (case due_day task of None \<Rightarrow> False | Some d \<Rightarrow> d \<le> T)"

text \<open>
  The order the comparison of \<open>GetTodaysTasks\<close> induces on the tasks it sorts: overdue
  tasks first, by day; then the others, by falling priority.
\<close>

definition sort_key :: "nat \<times> nat \<times> nat \<Rightarrow> TodoistTask \<Rightarrow> nat \<times> (nat \<times> nat \<times> nat) \<times> int" where
  "sort_key T task =
     (case due_day task of
        None \<Rightarrow> (1, T, - Priority task)
      | Some d \<Rightarrow> if d < T then (0, d, 0) else (1, T, - Priority task))"

text \<open>The one text that parses to a given day.\<close>

definition decimal :: "nat \<Rightarrow> char" where
  "decimal n = char_of (n + 48)"

definition canonical_day :: "nat \<times> nat \<times> nat \<Rightarrow> string" where
  "canonical_day ymd =
     (case ymd of (y, m, d) \<Rightarrow>
        [decimal (y div 1000), decimal (y div 100 mod 10), decimal (y div 10 mod 10),
         decimal (y mod 10), CHR ''-'', decimal (m div 10), decimal (m mod 10), CHR ''-'',
         decimal (d div 10), decimal (d mod 10)])"

definition noDueTask :: "string \<Rightarrow> int \<Rightarrow> TodoistTask" where
  "noDueTask i p = (sampleTask i p [])\<lparr>Due := None\<rparr>"

definition fetched6 :: "TodoistTask list" where
  "fetched6 =
     [sampleTask ''a'' 2 ''2024-05-01'', sampleTask ''b'' 1 ''2024-04-30'',
      noDueTask ''c'' 4, sampleTask ''d'' 4 ''2024-05-02'',
      sampleTask ''e'' 4 ''2024-05-01'', sampleTask ''f'' 3 ''2024-04-29'']"

section \<open>A run of Go's sort.Slice on a short slice\<close>

text \<open>
  \<open>sort.Slice(x, less)\<close> calls \<open>pdqsort_func(data, 0, n, bits.Len(n))\<close> (Go 1.19 and
  later). The functions below follow that code for a slice of fewer than 50 elements as
  far as its first partition: insertion sort for up to 12 elements; otherwise the pivot
  is the median of three, a slice that is already sorted is left alone, the slice is
  partitioned, and each side, if it has at most 12 elements, is sorted by insertion.
  Where the code would go on differently (50 elements or more, a side longer than 12)
  the result is \<open>None\<close>. Indices are Go \<open>int\<close>s; the code keeps them within the slice.
\<close>

text \<open>\<open>data[i]\<close> and \<open>data.Swap(i, j)\<close>.\<close>

definition at_index :: "'a list \<Rightarrow> int \<Rightarrow> 'a" where
  "at_index data i = data ! nat i"

definition Swap :: "'a list \<Rightarrow> int \<Rightarrow> int \<Rightarrow> 'a list" where
  "Swap data i j = data[nat i := data ! nat j, nat j := data ! nat i]"

text \<open>
  \<open>insertionSort_func(data, a, b)\<close>: the inner loop moves \<open>data[j]\<close> down while it is
  less than its left neighbour; the outer loop does so for \<open>i = a+1, ..., b-1\<close>.
\<close>

function insertion_shift :: "('a \<Rightarrow> 'a \<Rightarrow> bool) \<Rightarrow> 'a list \<Rightarrow> int \<Rightarrow> int \<Rightarrow> 'a list" where
  "insertion_shift lt data a j =
     (if a < j \<and> lt (at_index data j) (at_index data (j - 1))
      then insertion_shift lt (Swap data j (j - 1)) a (j - 1) else data)"
  by pat_completeness auto
termination
  by (relation "measure (\<lambda>(lt, data, a, j). nat (j - a))") auto

declare insertion_shift.simps [simp del]

function insertionSort_from ::
  "('a \<Rightarrow> 'a \<Rightarrow> bool) \<Rightarrow> 'a list \<Rightarrow> int \<Rightarrow> int \<Rightarrow> int \<Rightarrow> 'a list" where
  "insertionSort_from lt data a b i =
     (if i < b then insertionSort_from lt (insertion_shift lt data a i) a b (i + 1) else data)"
  by pat_completeness auto
termination
  by (relation "measure (\<lambda>(lt, data, a, b, i). nat (b - i))") auto

declare insertionSort_from.simps [simp del]

definition insertionSort_func :: "('a \<Rightarrow> 'a \<Rightarrow> bool) \<Rightarrow> 'a list \<Rightarrow> int \<Rightarrow> int \<Rightarrow> 'a list" where
  "insertionSort_func lt data a b = insertionSort_from lt data a b (a + 1)"

text \<open>
  \<open>order2_func\<close>, \<open>median_func\<close> and \<open>choosePivot_func\<close> for fewer than 50 elements,
  where the three candidates are not replaced by medians of their neighbours.
\<close>

definition order2_func ::
  "('a \<Rightarrow> 'a \<Rightarrow> bool) \<Rightarrow> 'a list \<Rightarrow> int \<Rightarrow> int \<Rightarrow> nat \<Rightarrow> int \<times> int \<times> nat" where
  "order2_func lt data a b swaps =
     (if lt (at_index data b) (at_index data a) then (b, a, swaps + 1) else (a, b, swaps))"

definition median_func ::
  "('a \<Rightarrow> 'a \<Rightarrow> bool) \<Rightarrow> 'a list \<Rightarrow> int \<Rightarrow> int \<Rightarrow> int \<Rightarrow> nat \<Rightarrow> int \<times> nat" where
  "median_func lt data a b c swaps =
     (case order2_func lt data a b swaps of (a, b, swaps) \<Rightarrow>
      case order2_func lt data b c swaps of (b, c, swaps) \<Rightarrow>
      case order2_func lt data a b swaps of (a, b, swaps) \<Rightarrow> (b, swaps))"

datatype sortedHint = unknownHint | increasingHint | decreasingHint

definition choosePivot_func ::
  "('a \<Rightarrow> 'a \<Rightarrow> bool) \<Rightarrow> 'a list \<Rightarrow> int \<Rightarrow> int \<Rightarrow> int \<times> sortedHint" where
  "choosePivot_func lt data a b =
     (let l = b - a; i = a + l div 4 * 1; j = a + l div 4 * 2; k = a + l div 4 * 3 in
      case (if 8 \<le> l then median_func lt data i j k 0 else (j, 0)) of
        (j, swaps) \<Rightarrow>
          (j, if swaps = 0 then increasingHint
              else if swaps = 12 then decreasingHint else unknownHint))"

text \<open>
  \<open>partialInsertionSort_func\<close> for fewer than 50 elements: it walks up to the first
  element that is less than its left neighbour, reports a sorted slice when there is
  none, and gives up otherwise without moving anything.
\<close>

function first_descent :: "('a \<Rightarrow> 'a \<Rightarrow> bool) \<Rightarrow> 'a list \<Rightarrow> int \<Rightarrow> int \<Rightarrow> int" where
  "first_descent lt data i b =
     (if i < b \<and> \<not> lt (at_index data i) (at_index data (i - 1))
      then first_descent lt data (i + 1) b else i)"
  by pat_completeness auto
termination
  by (relation "measure (\<lambda>(lt, data, i, b). nat (b - i))") auto

declare first_descent.simps [simp del]

definition partialInsertionSort_func :: "('a \<Rightarrow> 'a \<Rightarrow> bool) \<Rightarrow> 'a list \<Rightarrow> int \<Rightarrow> int \<Rightarrow> bool" where
  "partialInsertionSort_func lt data a b = (first_descent lt data (a + 1) b = b)"

text \<open>
  \<open>partition_func(data, a, b, pivot)\<close>: the pivot goes to \<open>data[a]\<close>; \<open>i\<close> walks up
  over elements less than the pivot, \<open>j\<close> walks down over elements not less than it,
  and the two elements they stop at are swapped, until \<open>i\<close> and \<open>j\<close> cross; then the
  pivot goes to \<open>data[j]\<close>. The result is the slice, the place of the pivot and whether
  the slice was partitioned already.
\<close>

function scan_up :: "('a \<Rightarrow> 'a \<Rightarrow> bool) \<Rightarrow> 'a list \<Rightarrow> int \<Rightarrow> int \<Rightarrow> int \<Rightarrow> int" where
  "scan_up lt data a i j =
     (if i \<le> j \<and> lt (at_index data i) (at_index data a)
      then scan_up lt data a (i + 1) j else i)"
  by pat_completeness auto
termination
  by (relation "measure (\<lambda>(lt, data, a, i, j). nat (j + 1 - i))") auto

declare scan_up.simps [simp del]

function scan_down :: "('a \<Rightarrow> 'a \<Rightarrow> bool) \<Rightarrow> 'a list \<Rightarrow> int \<Rightarrow> int \<Rightarrow> int \<Rightarrow> int" where
  "scan_down lt data a i j =
     (if i \<le> j \<and> \<not> lt (at_index data j) (at_index data a)
      then scan_down lt data a i (j - 1) else j)"
  by pat_completeness auto
termination
  by (relation "measure (\<lambda>(lt, data, a, i, j). nat (j + 1 - i))") auto

declare scan_down.simps [simp del]

function partition_loop ::
  "('a \<Rightarrow> 'a \<Rightarrow> bool) \<Rightarrow> 'a list \<Rightarrow> int \<Rightarrow> int \<Rightarrow> int \<Rightarrow> 'a list \<times> int" where
  "partition_loop lt data a i j =
     (let i' = scan_up lt data a i j; j' = scan_down lt data a i' j in
      if j' < i' then (data, j')
      else partition_loop lt (Swap data i' j') a (i' + 1) (j' - 1))"
  by pat_completeness auto
termination
proof (relation "measure (\<lambda>(lt, data, a, i, j). nat (j + 1 - i))")
  show "wf (measure (\<lambda>(lt, data, a, i, j). nat (j + 1 - i)))" by simp
next
  fix lt :: "'a \<Rightarrow> 'a \<Rightarrow> bool" and data :: "'a list" and a i j i' j' :: int
  assume i': "i' = scan_up lt data a i j" and j': "j' = scan_down lt data a i' j"
    and go: "\<not> j' < i'"
  have up: "i \<le> scan_up lt data a i j"
    by (induction lt data a i j rule: scan_up.induct) (subst scan_up.simps, auto)
  have down: "scan_down lt data a i' j \<le> j"
    by (induction lt data a i' j rule: scan_down.induct) (subst scan_down.simps, auto)
  from up down i' j' go
  show "((lt, Swap data i' j', a, i' + 1, j' - 1), (lt, data, a, i, j))
        \<in> measure (\<lambda>(lt, data, a, i, j). nat (j + 1 - i))"
    by simp
qed

declare partition_loop.simps [simp del]

definition partition_func ::
  "('a \<Rightarrow> 'a \<Rightarrow> bool) \<Rightarrow> 'a list \<Rightarrow> int \<Rightarrow> int \<Rightarrow> int \<Rightarrow> 'a list \<times> int \<times> bool" where
  "partition_func lt data a b pivot =
     (let data = Swap data a pivot;
          i = scan_up lt data a (a + 1) (b - 1);
          j = scan_down lt data a i (b - 1)
      in if j < i then (Swap data j a, j, True)
         else case partition_loop lt (Swap data i j) a (i + 1) (j - 1) of
                (data, j) \<Rightarrow> (Swap data j a, j, False))"

text \<open>
  \<open>sort.Slice\<close> as far as the model goes. On the first pass of the loop of
  \<open>pdqsort_func\<close> the limit is positive, the last partition counts as balanced and as
  partitioned, and \<open>a = 0\<close>: no pattern is broken, no heap sort and no partition into
  equal elements takes place. Three comparisons cannot count 12 swaps, so the hint is
  never \<open>decreasingHint\<close> here.
\<close>

definition sort_Slice_short :: "('a \<Rightarrow> 'a \<Rightarrow> bool) \<Rightarrow> 'a list \<Rightarrow> 'a list option" where
  "sort_Slice_short lt data =
     (let n = int (length data) in
      if n \<le> 12 then Some (insertionSort_func lt data 0 n)
      else if 50 \<le> n then None
      else
        case choosePivot_func lt data 0 n of
          (pivot, hint) \<Rightarrow>
            if hint = decreasingHint then None
            else if hint = increasingHint \<and> partialInsertionSort_func lt data 0 n
            then Some data
            else
              case partition_func lt data 0 n pivot of
                (data, mid, alreadyPartitioned) \<Rightarrow>
                  if mid \<le> 12 \<and> n - (mid + 1) \<le> 12
                  then Some (insertionSort_func lt
                               (insertionSort_func lt data 0 mid) (mid + 1) n)
                  else None)"

text \<open>The sorted slice, where the model has one.\<close>

definition sort_Slice_go :: "('a \<Rightarrow> 'a \<Rightarrow> bool) \<Rightarrow> 'a list \<Rightarrow> 'a list" where
  "sort_Slice_go lt data = the (sort_Slice_short lt data)"

text \<open>Thirteen tasks due today, the last one with the higher priority.\<close>

definition fetched13 :: "TodoistTask list" where
  "fetched13 =
     [sampleTask ''t01'' 1 ''2024-05-01'', sampleTask ''t02'' 1 ''2024-05-01'',
      sampleTask ''t03'' 1 ''2024-05-01'', sampleTask ''t04'' 1 ''2024-05-01'',
      sampleTask ''t05'' 1 ''2024-05-01'', sampleTask ''t06'' 1 ''2024-05-01'',
      sampleTask ''t07'' 1 ''2024-05-01'', sampleTask ''t08'' 1 ''2024-05-01'',
      sampleTask ''t09'' 1 ''2024-05-01'', sampleTask ''t10'' 1 ''2024-05-01'',
      sampleTask ''t11'' 1 ''2024-05-01'', sampleTask ''t12'' 1 ''2024-05-01'',
      sampleTask ''t13'' 2 ''2024-05-01'']"

text \<open>
  The text of a key, \<open>msg.String()\<close>, is put together by Bubble Tea from the names of
  the special keys and from \<open>string(k.Runes)\<close>, the UTF-8 encoding of the runes typed. It
  is therefore valid UTF-8 (\<open>utf8.ValidString\<close>): encoding the runes it decodes to gives
  the text back. A text of one byte is then an ASCII character.
\<close>

definition utf8_ValidString :: "string \<Rightarrow> bool" where
  "utf8_ValidString s = (concat (map EncodeRune (runes s)) = s)"

fun key_text_valid :: "Msg \<Rightarrow> bool" where
  "key_text_valid (KeyMsg k) = utf8_ValidString (key_String k)"
| "key_text_valid _ = True"

definition ascii_string :: "string \<Rightarrow> bool" where
  "ascii_string s = list_all (\<lambda>c. (of_char c :: nat) < 128) s"

text \<open>
  The project selection of the form is consistent: no project is selected (index \<open>-1\<close>),
  or the index points into \<open>filteredProjects\<close> and \<open>projectID\<close> and \<open>projectName\<close>
  are those of the project there.
\<close>

definition form_consistent :: "createTaskFormState \<Rightarrow> bool" where
  "form_consistent f =
     (- 1 \<le> selectedProjectIdx f \<and>
      (0 \<le> selectedProjectIdx f \<longrightarrow>
         selectedProjectIdx f < int (length (filteredProjects f)) \<and>
         projectID f = P_ID (filteredProjects f ! nat (selectedProjectIdx f)) \<and>
         projectName f = P_Name (filteredProjects f ! nat (selectedProjectIdx f))))"

text \<open>
  A \<open>projectsLoadedMsg\<close> is what the command \<open>loadProjects\<close> delivers when the request
  succeeds. \<open>Init\<close> issues that command once and \<open>Update\<close> never returns it, so a run
  of the program sees at most one such message.
\<close>

fun projectsLoaded :: "Msg \<Rightarrow> bool" where
  "projectsLoaded (projectsLoadedMsg ps) = True"
| "projectsLoaded _ = False"

text \<open>
  Before the projects have arrived there are none, in the model and in the form, and
  no project is selected. A program started without a token begins with a form of zero
  values (index 0), which is replaced when the form is opened; \<open>b\<close> says that there
  is a token.
\<close>

definition unloaded :: "model \<Rightarrow> bool" where
  "unloaded m =
     (projects m = [] \<and> filteredProjects (createTaskForm m) = [] \<and>
      selectedProjectIdx (createTaskForm m) = - 1)"

definition before_load :: "bool \<Rightarrow> model \<Rightarrow> bool" where
  "before_load b m =
     (projects m = [] \<and> filteredProjects (createTaskForm m) = [] \<and>
      (b \<or> showingCreateTask m \<longrightarrow> selectedProjectIdx (createTaskForm m) = - 1))"

definition form_ok :: "bool \<Rightarrow> model \<Rightarrow> bool" where
  "form_ok b m = (b \<or> showingCreateTask m \<longrightarrow> form_consistent (createTaskForm m))"

text \<open>
  What every step but a key in the open form and a project load does to the form: it
  keeps the projects, and it keeps the form, or resets it as the \<open>q\<close> key does, or
  resets and closes it as \<open>taskCreatedMsg\<close> does.
\<close>

definition kept :: "model \<Rightarrow> model \<Rightarrow> bool" where
  "kept m m' =
     (projects m' = projects m \<and>
      (createTaskForm m' = createTaskForm m \<and> showingCreateTask m' = showingCreateTask m \<or>
       createTaskForm m' = blankForm (projects m) \<or>
       createTaskForm m' = createdForm (projects m) \<and> \<not> showingCreateTask m'))"

section \<open>Frames of the key handlers\<close>

lemma frame_refl [simp]: "frame m m"
  by (simp add: frame_def)

lemma frame_updateProjectFilter [simp]:
  "frame m (updateProjectFilter lower m') = frame m m'"
  by (simp add: frame_def updateProjectFilter_def Let_def split: list.splits)

lemma frame_form [simp]: "frame m (m'\<lparr>createTaskForm := f\<rparr>) = frame m m'"
  by (simp add: frame_def)

lemma frame_selectProject:
  "selectProject m i = Some m' \<Longrightarrow> frame m m'"
  by (auto simp: selectProject_def Let_def split: option.splits)

lemma frame_projectFieldInput:
  "projectFieldInput lower m s = Some m' \<Longrightarrow> frame m m'"
  unfolding projectFieldInput_def Let_def
  by (auto split: if_splits dest: frame_selectProject)

lemma frame_formBackspace [simp]: "frame m (formBackspace lower m)"
  by (simp add: formBackspace_def Let_def split: createTaskFormField.splits)

lemma frame_formFieldInput:
  "formFieldInput lower m s = Some m' \<Longrightarrow> frame m m'"
  unfolding formFieldInput_def Let_def
  by (auto split: createTaskFormField.splits if_splits dest: frame_projectFieldInput)

lemma frame_handleCreateTaskInput:
  "handleCreateTaskInput lower m k = Some (m', c) \<Longrightarrow> frame m m'"
  unfolding handleCreateTaskInput_def Let_def
  by (auto split: if_splits option.splits dest: frame_formFieldInput[unfolded frame_def]
      simp: frame_def frame_formBackspace[unfolded frame_def])

lemma frame_handlePopupInput: "frame m (fst (handlePopupInput m k))"
  unfolding handlePopupInput_def Let_def frame_def by simp

lemma frame_handleDeleteConfirmInput: "frame m (fst (handleDeleteConfirmInput m k))"
  unfolding handleDeleteConfirmInput_def Let_def frame_def by simp

lemma handleMainViewInput_selectedIndex:
  "selectedIndex (fst (handleMainViewInput m k)) = selectedIndex m \<or>
   selectedIndex (fst (handleMainViewInput m k)) = selectedIndex (moveUp m) \<or>
   selectedIndex (fst (handleMainViewInput m k)) = selectedIndex (moveDown m)"
  unfolding handleMainViewInput_def Let_def by simp

lemma handleMainViewInput_lists:
  "tasks (fst (handleMainViewInput m k)) = tasks m \<and>
   allTasks (fst (handleMainViewInput m k)) = allTasks m \<and>
   projects (fst (handleMainViewInput m k)) = projects m"
  unfolding handleMainViewInput_def Let_def by (simp add: moveUp_def moveDown_def Let_def)

lemma frame_moved: "frame m m' \<Longrightarrow> moved m m'"
  by (simp add: frame_def moved_def)

lemma Update_KeyMsg_moved:
  assumes "Update lower m (KeyMsg k) = Some (m', c)"
  shows "moved m m'"
proof -
  consider (quit) "m' = m"
    | (del) "m' = m\<lparr>showingPopup := False, showingDeleteConfirm := True,
                    taskToDelete := ID (selectedTask m)\<rparr>"
    | (confirm) "m' = fst (handleDeleteConfirmInput m k)"
    | (form) "handleCreateTaskInput lower m k = Some (m', c)"
    | (popup) "m' = fst (handlePopupInput m k)"
    | (main) "m' = fst (handleMainViewInput m k)"
    using assms unfolding Update_def by (auto split: if_splits)
  then show ?thesis
  proof cases
    case quit then show ?thesis by (simp add: moved_def)
  next
    case del then show ?thesis by (simp add: moved_def)
  next
    case confirm then show ?thesis
      using frame_handleDeleteConfirmInput[of m k] by (simp add: frame_moved)
  next
    case form then show ?thesis by (rule frame_moved[OF frame_handleCreateTaskInput])
  next
    case popup then show ?thesis
      using frame_handlePopupInput[of m k] by (simp add: frame_moved)
  next
    case main then show ?thesis
      using handleMainViewInput_selectedIndex[of m k] handleMainViewInput_lists[of m k]
      by (simp add: moved_def)
  qed
qed

lemma Update_other_moved:
  assumes "Update lower m msg = Some (m', c)" "\<not> list_event msg"
  shows "tasks m' = tasks m \<and> allTasks m' = allTasks m \<and>
      (selectedIndex m' = selectedIndex m \<or> selectedIndex m' = selectedIndex (moveUp m) \<or>
       selectedIndex m' = selectedIndex (moveDown m))"
proof (cases msg)
  case (KeyMsg k)
  with assms(1) Update_KeyMsg_moved[of lower m k m' c] show ?thesis by (simp add: moved_def)
next
  case (projectsLoadedMsg ps)
  with assms(1) show ?thesis by (cases ps) (auto simp: Update_def)
qed (use assms in \<open>auto simp: Update_def\<close>)


lemma selection_ok_weak: "selection_ok m \<Longrightarrow> selection_weak m"
  by (auto simp: selection_ok_def selection_weak_def split: if_splits)

lemma loadedSelection_ok:
  "- 1 \<le> i \<Longrightarrow>
   (if ts = [] then loadedSelection (int (length ts)) i = - 1
    else 0 \<le> loadedSelection (int (length ts)) i \<and>
         loadedSelection (int (length ts)) i < int (length ts))"
  by (cases ts) (auto simp: loadedSelection_def Let_def)

lemma removedSelection_ok:
  "- 1 \<le> i \<Longrightarrow> (ts \<noteq> [] \<longrightarrow> 0 \<le> i) \<Longrightarrow>
   (if ts = [] then removedSelection (int (length ts)) i = - 1
    else 0 \<le> removedSelection (int (length ts)) i \<and>
         removedSelection (int (length ts)) i < int (length ts))"
  by (cases ts) (auto simp: removedSelection_def)

lemma removeTask_ok: "selection_weak m \<Longrightarrow> selection_ok (removeTask m taskID)"
proof -
  assume w: "selection_weak m"
  let ?us = "filter (\<lambda>task. ID task \<noteq> taskID) (allTasks m)"
  have "?us \<noteq> [] \<Longrightarrow> allTasks m \<noteq> []" by auto
  with w have "?us \<noteq> [] \<longrightarrow> 0 \<le> selectedIndex m" "- 1 \<le> selectedIndex m"
    by (auto simp: selection_weak_def)
  from removedSelection_ok[OF this(2) this(1)]
  show ?thesis
    by (auto simp: selection_ok_def removeTask_def Let_def split: if_splits)
qed

lemma list_event_ok:
  assumes "selection_weak m" "list_event msg"
  shows "\<exists>m'. Update lower m msg = Some (m', nil) \<and> selection_ok m'"
proof (cases msg)
  case (tasksLoadedMsg ts)
  from assms(1) have "- 1 \<le> selectedIndex m" by (simp add: selection_weak_def)
  from loadedSelection_ok[OF this, of ts] tasksLoadedMsg show ?thesis
    by (auto simp: Update_def selection_ok_def split: if_splits)
next
  case (taskCompletedMsg i)
  with assms(1) show ?thesis by (simp add: Update_def removeTask_ok)
next
  case (taskDeletedMsg i)
  with assms(1) show ?thesis by (simp add: Update_def removeTask_ok)
qed (use assms(2) in simp_all)

lemma moveUp_weak:
  "selection_weak m \<Longrightarrow>
   - 1 \<le> selectedIndex (moveUp m) \<and> (allTasks m \<noteq> [] \<longrightarrow> 0 \<le> selectedIndex (moveUp m))"
  by (auto simp: selection_weak_def moveUp_def Let_def)

lemma moveDown_weak:
  "selection_weak m \<Longrightarrow>
   - 1 \<le> selectedIndex (moveDown m) \<and> (allTasks m \<noteq> [] \<longrightarrow> 0 \<le> selectedIndex (moveDown m))"
  by (auto simp: selection_weak_def moveDown_def Let_def)

lemma moveUp_ok:
  "selection_ok m \<Longrightarrow>
   (if allTasks m = [] then selectedIndex (moveUp m) = - 1
    else 0 \<le> selectedIndex (moveUp m) \<and> selectedIndex (moveUp m) < int (length (allTasks m)))"
  by (auto simp: selection_ok_def moveUp_def Let_def split: if_splits)

lemma moveDown_ok:
  "selection_ok m \<Longrightarrow>
   (if allTasks m = [] then selectedIndex (moveDown m) = - 1
    else 0 \<le> selectedIndex (moveDown m) \<and> selectedIndex (moveDown m) < int (length (allTasks m)))"
  by (auto simp: selection_ok_def moveDown_def Let_def split: if_splits)

lemma Update_weak:
  assumes "selection_weak m" "Update lower m msg = Some (m', c)"
  shows "selection_weak m'"
proof (cases "list_event msg")
  case True
  from list_event_ok[OF assms(1) True, of lower] assms(2) show ?thesis
    by (auto intro: selection_ok_weak)
next
  case False
  from Update_other_moved[OF assms(2) False] moveUp_weak[OF assms(1)] moveDown_weak[OF assms(1)]
    assms(1)
  show ?thesis unfolding selection_weak_def by auto
qed

lemma Update_ok:
  assumes "selection_ok m" "Update lower m msg = Some (m', c)"
  shows "selection_ok m'"
proof (cases "list_event msg")
  case True
  from list_event_ok[OF selection_ok_weak[OF assms(1)] True, of lower] assms(2) show ?thesis
    by auto
next
  case False
  from Update_other_moved[OF assms(2) False] moveUp_ok[OF assms(1)] moveDown_ok[OF assms(1)]
    assms(1)
  show ?thesis unfolding selection_ok_def by (auto split: if_splits)
qed

lemma Update_same_lists:
  assumes "tasks m = allTasks m" "Update lower m msg = Some (m', c)"
  shows "tasks m' = allTasks m'"
proof (cases "list_event msg")
  case True
  with assms show ?thesis
    by (cases msg) (auto simp: Update_def removeTask_def Let_def)
next
  case False
  from Update_other_moved[OF assms(2) False] assms(1) show ?thesis by simp
qed

lemma reachable_weak: "reachable lower token cols m \<Longrightarrow> selection_weak m"
proof (induction rule: reachable.induct)
  case start
  show ?case by (simp add: initialModel_def selection_weak_def)
next
  case (step m msg m' c)
  then show ?case by (blast intro: Update_weak)
qed

lemma reachable_ok: "reachable lower token cols m \<Longrightarrow> token \<noteq> [] \<Longrightarrow> selection_ok m"
proof (induction rule: reachable.induct)
  case start
  then show ?case by (simp add: initialModel_def selection_ok_def)
next
  case (step m msg m' c)
  then show ?case by (blast intro: Update_ok)
qed

lemma reachable_same_lists: "reachable lower token cols m \<Longrightarrow> tasks m = allTasks m"
proof (induction rule: reachable.induct)
  case start
  show ?case by (simp add: initialModel_def)
next
  case (step m msg m' c)
  then show ?case by (blast intro: Update_same_lists)
qed

lemma run_list_events:
  assumes "list_all list_event msgs" "selection_weak m" "msgs \<noteq> [] \<or> selection_ok m"
  shows "\<exists>m'. run lower m msgs = Some m' \<and> selection_ok m'"
  using assms
proof (induction msgs arbitrary: m)
  case Nil
  then show ?case by simp
next
  case (Cons msg msgs)
  from Cons.prems have ev: "list_event msg" and rest: "list_all list_event msgs" by simp_all
  from list_event_ok[OF Cons.prems(2) ev, of lower]
  obtain m1 where m1: "Update lower m msg = Some (m1, nil)" "selection_ok m1" by blast
  from Cons.IH[OF rest selection_ok_weak[OF m1(2)]] m1(2)
  obtain m' where "run lower m1 msgs = Some m'" "selection_ok m'" by blast
  with m1(1) show ?case by simp
qed

text \<open>
  C2. In every state the program can reach, feeding \<open>Update\<close> any sequence of
  \<open>tasksLoadedMsg\<close>, \<open>taskCompletedMsg\<close> and \<open>taskDeletedMsg\<close> never panics and ends
  in a state where the task list is empty and the selection is \<open>-1\<close>, or the list has
  tasks and \<open>0 \<le> selectedIndex < length\<close>. A program started without a token begins with
  selection 0 on an empty list; there the property holds from the first such message on.
\<close>

theorem selection_invariant:
  assumes "reachable lower token cols m" and "list_all list_event msgs"
    and "token \<noteq> [] \<or> msgs \<noteq> []"
  shows "\<exists>m'. run lower m msgs = Some m' \<and> selection_ok m'"
proof -
  have "msgs \<noteq> [] \<or> selection_ok m"
    using assms(1,3) reachable_ok by blast
  from run_list_events[OF assms(2) reachable_weak[OF assms(1)] this] show ?thesis .
qed

theorem selection_invariant_witness:
  "reachable (\<lambda>r. r) ''token'' [] (initialModel ''token'' []) \<and>
   list_all list_event
     [tasksLoadedMsg [sampleTask ''1'' 1 ''2024-05-01'', sampleTask ''2'' 4 ''2024-05-02''],
      taskCompletedMsg ''2'', taskDeletedMsg ''1''] \<and>
   (\<exists>m'. run (\<lambda>r. r) (initialModel ''token'' [])
           [tasksLoadedMsg [sampleTask ''1'' 1 ''2024-05-01'', sampleTask ''2'' 4 ''2024-05-02''],
            taskCompletedMsg ''2'', taskDeletedMsg ''1''] = Some m' \<and> selection_ok m')"
  using selection_invariant[OF reachable.start, of
      "[tasksLoadedMsg [sampleTask ''1'' 1 ''2024-05-01'', sampleTask ''2'' 4 ''2024-05-02''],
        taskCompletedMsg ''2'', taskDeletedMsg ''1'']" "''token''" "\<lambda>r. r" "[]"]
  by (simp add: reachable.start)

section \<open>Removing tasks and the selection\<close>

lemma reachable_run:
  "reachable lower token cols m \<Longrightarrow> run lower m msgs = Some m' \<Longrightarrow>
   reachable lower token cols m'"
proof (induction msgs arbitrary: m)
  case Nil
  then show ?case by simp
next
  case (Cons msg msgs)
  then show ?case
    by (auto split: option.splits intro: reachable.step)
qed

lemma removeTask_absent:
  assumes "taskID \<notin> ID ` set (allTasks m)"
  shows "filter (\<lambda>task. ID task \<noteq> taskID) (allTasks m) = allTasks m"
  using assms by (induction "allTasks m") (auto simp: filter_id_conv)

lemma removeTask_noop:
  assumes "taskID \<notin> ID ` set (allTasks m)" "tasks m = allTasks m" "selection_ok m"
  shows "removeTask m taskID = m"
proof -
  have f: "filter (\<lambda>task. ID task \<noteq> taskID) (allTasks m) = allTasks m"
    using assms(1) by (rule removeTask_absent)
  have "removedSelection (int (length (allTasks m))) (selectedIndex m) = selectedIndex m"
    using assms(3) by (auto simp: removedSelection_def selection_ok_def split: if_splits)
  with f assms(2) show ?thesis by (simp add: removeTask_def Let_def)
qed

text \<open>
  In a state reached by the program with a token, a \<open>taskCompletedMsg\<close> or
  \<open>taskDeletedMsg\<close> whose identifier no task carries changes nothing at all.
\<close>

lemma reachable_remove_absent:
  assumes "reachable lower token cols m" and "token \<noteq> []"
    and "taskID \<notin> ID ` set (allTasks m)"
  shows "Update lower m (taskCompletedMsg taskID) = Some (m, nil)"
    and "Update lower m (taskDeletedMsg taskID) = Some (m, nil)"
  using removeTask_noop[OF assms(3) reachable_same_lists[OF assms(1)]] reachable_ok[OF assms(1)]
    assms(2)
  by (simp_all add: Update_def)

text \<open>
  C6. For every model whose two lists agree (\<open>tasks\<close>, the display list, and
  \<open>allTasks\<close>, the raw list; \<open>Update\<close> assigns them together, so they agree in every
  reachable state), a \<open>taskCompletedMsg\<close> or \<open>taskDeletedMsg\<close> is processed without a panic and leaves in both lists exactly the
  tasks whose \<open>ID\<close> differs from the identifier of the message, in their old order;
  nothing but the two lists and the selection changes. For an identifier that no task
  carries both lists stay as they are, and the whole model does when the selection was
  below the length of the list.
\<close>

theorem remove_by_identifier:
  assumes "tasks m = allTasks m"
    and "msg = taskCompletedMsg taskID \<or> msg = taskDeletedMsg taskID"
  shows "\<exists>m'. Update lower m msg = Some (m', nil) \<and>
           allTasks m' = filter (\<lambda>task. ID task \<noteq> taskID) (allTasks m) \<and>
           tasks m' = filter (\<lambda>task. ID task \<noteq> taskID) (tasks m) \<and>
           m' = m\<lparr>allTasks := allTasks m', tasks := tasks m', selectedIndex := selectedIndex m'\<rparr> \<and>
           (taskID \<notin> ID ` set (allTasks m) \<longrightarrow>
              allTasks m' = allTasks m \<and> tasks m' = tasks m \<and>
              (selectedIndex m < int (length (allTasks m)) \<longrightarrow> m' = m))"
proof -
  let ?m' = "removeTask m taskID"
  have up: "Update lower m msg = Some (?m', nil)"
    using assms(2) by (auto simp: Update_def)
  have lists: "allTasks ?m' = filter (\<lambda>task. ID task \<noteq> taskID) (allTasks m)"
    "tasks ?m' = filter (\<lambda>task. ID task \<noteq> taskID) (tasks m)"
    using assms(1) by (simp_all add: removeTask_def Let_def)
  have rest: "?m' = m\<lparr>allTasks := allTasks ?m', tasks := tasks ?m',
                       selectedIndex := selectedIndex ?m'\<rparr>"
    by (simp add: removeTask_def Let_def)
  have absent: "allTasks ?m' = allTasks m \<and> tasks ?m' = tasks m \<and>
      (selectedIndex m < int (length (allTasks m)) \<longrightarrow> ?m' = m)"
    if a: "taskID \<notin> ID ` set (allTasks m)"
    using removeTask_absent[OF a] assms(1)
    by (simp add: removeTask_def Let_def removedSelection_def)
  from up lists rest absent show ?thesis by blast
qed

text \<open>
  Three tasks loaded; deleting the second leaves the first and the third, and completing
  a task that is not in the list leaves the model as it is.
\<close>

theorem remove_by_identifier_witness:
  "\<exists>m. run id (initialModel ''token'' [])
          [tasksLoadedMsg [sampleTask ''1'' 1 ''2024-05-01'', sampleTask ''2'' 4 ''2024-05-02'',
                           sampleTask ''3'' 2 ''2024-05-03'']]
        = Some m \<and>
       tasks m = allTasks m \<and>
       allTasks m = [sampleTask ''1'' 1 ''2024-05-01'', sampleTask ''2'' 4 ''2024-05-02'',
                     sampleTask ''3'' 2 ''2024-05-03''] \<and>
       (\<exists>m'. Update id m (taskDeletedMsg ''2'') = Some (m', nil) \<and>
          allTasks m' = [sampleTask ''1'' 1 ''2024-05-01'', sampleTask ''3'' 2 ''2024-05-03''] \<and>
          tasks m' = [sampleTask ''1'' 1 ''2024-05-01'', sampleTask ''3'' 2 ''2024-05-03'']) \<and>
       Update id m (taskCompletedMsg ''9'') = Some (m, nil)"
proof -
  let ?ts = "[sampleTask ''1'' 1 ''2024-05-01'', sampleTask ''2'' 4 ''2024-05-02'',
              sampleTask ''3'' 2 ''2024-05-03'']"
  obtain m where run: "run id (initialModel ''token'' []) [tasksLoadedMsg ?ts] = Some m"
    and ts: "allTasks m = ?ts" "tasks m = ?ts" and sel: "selectedIndex m = 0"
    by (simp add: Update_def initialModel_def loadedSelection_def)
  have same: "tasks m = allTasks m" by (simp add: ts)
  from remove_by_identifier[OF same, of "taskDeletedMsg ''2''" "''2''" id]
  have present: "\<exists>m'. Update id m (taskDeletedMsg ''2'') = Some (m', nil) \<and>
      allTasks m' = [sampleTask ''1'' 1 ''2024-05-01'', sampleTask ''3'' 2 ''2024-05-03''] \<and>
      tasks m' = [sampleTask ''1'' 1 ''2024-05-01'', sampleTask ''3'' 2 ''2024-05-03'']"
    by (auto simp: ts sampleTask_def)
  have absent: "''9'' \<notin> ID ` set (allTasks m)"
    by (simp add: ts sampleTask_def)
  from remove_by_identifier[OF same, of "taskCompletedMsg ''9''" "''9''" id] absent
  have noop: "Update id m (taskCompletedMsg ''9'') = Some (m, nil)"
    by (auto simp: ts sel)
  from run same ts present noop show ?thesis by blast
qed


text \<open>
  C5, as the code has it. After \<open>taskCompletedMsg\<close> and \<open>taskDeletedMsg\<close> a selection
  at or beyond the new length moves to the last task, or to \<open>-1\<close> when no task is left.
  After \<open>tasksLoadedMsg\<close> a selection at or beyond the new length is reset to the first
  task (index 0), or to \<open>-1\<close> when the loaded list is empty, and a selection of \<open>-1\<close>
  becomes 0 when tasks arrive. A selection within range is kept.
\<close>

theorem selection_after_list_event:
  "(\<exists>m'. Update lower m (taskCompletedMsg taskID) = Some (m', nil) \<and>
      selectedIndex m' =
        (if int (length (allTasks m')) \<le> selectedIndex m
         then (if allTasks m' = [] then - 1 else int (length (allTasks m')) - 1)
         else selectedIndex m)) \<and>
   (\<exists>m'. Update lower m (taskDeletedMsg taskID) = Some (m', nil) \<and>
      selectedIndex m' =
        (if int (length (allTasks m')) \<le> selectedIndex m
         then (if allTasks m' = [] then - 1 else int (length (allTasks m')) - 1)
         else selectedIndex m)) \<and>
   (\<exists>m'. Update lower m (tasksLoadedMsg ts) = Some (m', nil) \<and> allTasks m' = ts \<and>
      selectedIndex m' =
        (if ts = [] then (if 0 \<le> selectedIndex m then - 1 else selectedIndex m)
         else if selectedIndex m = - 1 \<or> int (length ts) \<le> selectedIndex m then 0
         else selectedIndex m))"
  by (auto simp: Update_def removeTask_def removedSelection_def loadedSelection_def Let_def)

text \<open>
  Three tasks with the third selected; a refresh brings two tasks: the selection is then
  0, not 1.
\<close>

theorem clamp_on_refresh_counterexample:
  "map_option selectedIndex
     (run id (initialModel ''token'' [])
        [tasksLoadedMsg [sampleTask ''1'' 1 ''2024-05-01'', sampleTask ''2'' 1 ''2024-05-01'',
                         sampleTask ''3'' 1 ''2024-05-01''],
         key ''down'', key ''down'']) = Some 2 \<and>
   map_option selectedIndex
     (run id (initialModel ''token'' [])
        [tasksLoadedMsg [sampleTask ''1'' 1 ''2024-05-01'', sampleTask ''2'' 1 ''2024-05-01'',
                         sampleTask ''3'' 1 ''2024-05-01''],
         key ''down'', key ''down'',
         tasksLoadedMsg [sampleTask ''1'' 1 ''2024-05-01'', sampleTask ''2'' 1 ''2024-05-01'']])
     = Some 0 \<and>
   map_option (length \<circ> allTasks)
     (run id (initialModel ''token'' [])
        [tasksLoadedMsg [sampleTask ''1'' 1 ''2024-05-01'', sampleTask ''2'' 1 ''2024-05-01'',
                         sampleTask ''3'' 1 ''2024-05-01''],
         key ''down'', key ''down'',
         tasksLoadedMsg [sampleTask ''1'' 1 ''2024-05-01'', sampleTask ''2'' 1 ''2024-05-01'']])
     = Some 2"
  by (simp add: initialModel_def Update_def key_def handleMainViewInput_def moveDown_def
      loadedSelection_def Let_def blankForm_def)

section \<open>Opening the form; errors\<close>

lemma handlePopupInput_q:
  "key_String k = ''q'' \<or> key_String k = ''Q'' \<Longrightarrow> handlePopupInput m k = (m, nil)"
  by (erule disjE) (simp_all add: handlePopupInput_def Let_def)

lemma handleMainViewInput_q:
  "key_String k = ''q'' \<or> key_String k = ''Q'' \<Longrightarrow>
   handleMainViewInput m k =
     (if creating m then m
      else m\<lparr>showingCreateTask := True, createTaskForm := blankForm (projects m)\<rparr>, nil)"
  by (erule disjE) (simp_all add: handleMainViewInput_def Let_def)

text \<open>
  C8, as the code has it. With neither the form nor the delete dialog open, the key
  \<open>q\<close> or \<open>Q\<close> opens the form from the list view, reset to \<open>blankForm\<close> (no content,
  priority 1, no project id, project name Inbox, no project selected, empty search, all
  projects listed, deadline today, the content field active), unless a task is being
  created; then, and in the popup, the key changes nothing.
\<close>

theorem new_task_input:
  assumes "key_String k = ''q'' \<or> key_String k = ''Q''"
    and "\<not> (key_Type_Backspace k \<and> key_Alt k)"
    and "\<not> showingDeleteConfirm m" and "\<not> showingCreateTask m"
  shows "Update lower m (KeyMsg k) =
           Some (if showingPopup m \<or> creating m then m
                 else m\<lparr>showingCreateTask := True, createTaskForm := blankForm (projects m)\<rparr>,
                 nil)"
proof -
  have "key_String k \<noteq> ''ctrl+c''" using assms(1) by (elim disjE) simp_all
  with assms(2-4) have "Update lower m (KeyMsg k) =
      Some (if showingPopup m then handlePopupInput m k else handleMainViewInput m k)"
    unfolding Update_def by (cases "key_Type_Backspace k"; cases "key_Alt k") simp_all
  with handlePopupInput_q[OF assms(1)] handleMainViewInput_q[OF assms(1)]
  show ?thesis by simp
qed

theorem new_task_input_witness:
  "(key_String \<lparr>key_Type_Backspace = False, key_Alt = False, key_String = ''q''\<rparr> = ''q'' \<or>
    key_String \<lparr>key_Type_Backspace = False, key_Alt = False, key_String = ''q''\<rparr> = ''Q'') \<and>
   \<not> showingDeleteConfirm (initialModel ''token'' []) \<and>
   \<not> showingCreateTask (initialModel ''token'' []) \<and>
   Update (\<lambda>r. r) (initialModel ''token'' []) (key ''q'') =
     Some ((initialModel ''token'' [])\<lparr>showingCreateTask := True, createTaskForm := blankForm []\<rparr>,
           nil)"
proof -
  have flags: "\<not> showingDeleteConfirm (initialModel ''token'' [])"
    "\<not> showingCreateTask (initialModel ''token'' [])"
    "\<not> showingPopup (initialModel ''token'' [])" "\<not> creating (initialModel ''token'' [])"
    "projects (initialModel ''token'' []) = []"
    by (simp_all add: initialModel_def)
  from new_task_input[of "\<lparr>key_Type_Backspace = False, key_Alt = False, key_String = ''q''\<rparr>"
      "initialModel ''token'' []" "\<lambda>r. r"] flags
  show ?thesis by (simp add: key_def)
qed


text \<open>With the popup open, \<open>q\<close> leaves the popup open and the form closed.\<close>

theorem new_task_from_popup_counterexample:
  "map_option showingPopup
     (run id (initialModel ''token'' [])
        [tasksLoadedMsg [sampleTask ''1'' 1 ''2024-05-01''], key ''enter'']) = Some True \<and>
   map_option creating
     (run id (initialModel ''token'' [])
        [tasksLoadedMsg [sampleTask ''1'' 1 ''2024-05-01''], key ''enter'']) = Some False \<and>
   map_option showingCreateTask
     (run id (initialModel ''token'' [])
        [tasksLoadedMsg [sampleTask ''1'' 1 ''2024-05-01''], key ''enter'', key ''q''])
     = Some False \<and>
   map_option showingPopup
     (run id (initialModel ''token'' [])
        [tasksLoadedMsg [sampleTask ''1'' 1 ''2024-05-01''], key ''enter'', key ''q''])
     = Some True"
  by (simp add: initialModel_def Update_def key_def handleMainViewInput_def handlePopupInput_def
      has_selection_def loadedSelection_def Let_def blankForm_def)

text \<open>
  C9, as the code has it. An \<open>errorMsg\<close> stores the error and clears \<open>loading\<close>; the
  task lists and the selection are untouched. \<open>View\<close> then shows the error screen alone,
  whether tasks had been loaded or not.
\<close>

theorem error_after_load:
  "Update lower m (errorMsg e) = Some (m\<lparr>error := Some e, loading := False\<rparr>, nil) \<and>
   tasks (m\<lparr>error := Some e, loading := False\<rparr>) = tasks m \<and>
   allTasks (m\<lparr>error := Some e, loading := False\<rparr>) = allTasks m \<and>
   selectedIndex (m\<lparr>error := Some e, loading := False\<rparr>) = selectedIndex m \<and>
   View today (m\<lparr>error := Some e, loading := False\<rparr>) = ErrorScreen e"
proof -
  have "Update lower m (errorMsg e) = Some (m\<lparr>error := Some e, loading := False\<rparr>, nil)"
    by (simp add: Update_def)
  moreover have "View today (m\<lparr>error := Some e, loading := False\<rparr>) = ErrorScreen e"
    by (simp add: View_def)
  ultimately show ?thesis by simp
qed


text \<open>One task loaded and shown; after an \<open>errorMsg\<close> the screen is the error screen.\<close>

theorem error_after_load_counterexample:
  "map_option (View ''2024-05-01'')
     (run id (initialModel ''token'' [])
        [tasksLoadedMsg [sampleTask ''1'' 1 ''2024-05-01'']])
     = Some (TaskScreen [] [sampleTask ''1'' 1 ''2024-05-01''] 0 NoOverlay) \<and>
   map_option (View ''2024-05-01'')
     (run id (initialModel ''token'' [])
        [tasksLoadedMsg [sampleTask ''1'' 1 ''2024-05-01''], errorMsg ''request timed out''])
     = Some (ErrorScreen ''request timed out'')"
  by (simp add: initialModel_def Update_def View_def loadedSelection_def Let_def blankForm_def
      isTaskOverdue_def sampleTask_def time_Parse_def is_digit_def digit_def daysIn_def isLeap_def)

section \<open>The form under the key handlers\<close>

lemma handleMainViewInput_form:
  "createTaskForm (fst (handleMainViewInput m k)) = createTaskForm m \<or>
   createTaskForm (fst (handleMainViewInput m k)) = blankForm (projects m)"
  unfolding handleMainViewInput_def Let_def by (simp add: moveUp_def moveDown_def Let_def)

lemma handlePopupInput_form: "createTaskForm (fst (handlePopupInput m k)) = createTaskForm m"
  unfolding handlePopupInput_def Let_def by simp

lemma handleDeleteConfirmInput_form:
  "createTaskForm (fst (handleDeleteConfirmInput m k)) = createTaskForm m"
  unfolding handleDeleteConfirmInput_def Let_def by simp

lemma Update_KeyMsg_cases:
  "Update lower m (KeyMsg k) = Some (m, Quit) \<or>
   Update lower m (KeyMsg k) =
     Some (m\<lparr>showingPopup := False, showingDeleteConfirm := True,
             taskToDelete := ID (selectedTask m)\<rparr>, nil) \<or>
   Update lower m (KeyMsg k) = Some (handleDeleteConfirmInput m k) \<or>
   Update lower m (KeyMsg k) = handleCreateTaskInput lower m k \<or>
   Update lower m (KeyMsg k) = Some (handlePopupInput m k) \<or>
   Update lower m (KeyMsg k) = Some (handleMainViewInput m k)"
  unfolding Update_def by simp

section \<open>The fuzzy matcher\<close>

text \<open>
  The loop of \<open>fuzzySearchProjects\<close> accepts a name exactly when the bytes of the
  lowered query, each read as a rune, are a subsequence of the runes of the lowered name.
\<close>

lemma advance_queryIdx_le:
  "i \<le> length q \<Longrightarrow> i \<le> advance_queryIdx rs q i \<and> advance_queryIdx rs q i \<le> length q"
proof (induction rs arbitrary: i)
  case Nil
  then show ?case by simp
next
  case (Cons r rs)
  from Cons.IH[of i] Cons.IH[of "Suc i"] Cons.prems show ?case
    by (cases "i < length q \<and> r = of_char (q ! i)") (simp_all, linarith)
qed

lemma advance_queryIdx_subseq:
  "i \<le> length q \<Longrightarrow>
   (advance_queryIdx rs q i = length q) = subseq (map of_char (drop i q)) rs"
proof (induction rs arbitrary: i)
  case Nil
  have "subseq (map of_char (drop i q) :: nat list) [] \<longleftrightarrow> length q \<le> i"
    by (auto dest: list_emb_Nil2)
  with Nil show ?case by auto
next
  case (Cons r rs)
  show ?case
  proof (cases "i < length q")
    case False
    with Cons.prems have "i = length q" by simp
    with advance_queryIdx_le[of i q rs] show ?thesis by simp
  next
    case True
    then have d: "drop i q = q ! i # drop (Suc i) q" by (simp add: Cons_nth_drop_Suc)
    show ?thesis
    proof (cases "r = of_char (q ! i)")
      case True
      with \<open>i < length q\<close> Cons.IH[of "Suc i"] show ?thesis by (simp add: d)
    next
      case False
      with \<open>i < length q\<close> Cons.IH[of i] Cons.prems show ?thesis by (simp add: d)
    qed
  qed
qed

lemma project_matches_subseq:
  "project_matches lower queryLower =
     (\<lambda>p. subseq (map of_char queryLower) (runes (strings_ToLower lower (P_Name p))))"
  using advance_queryIdx_subseq[of 0 queryLower] by (intro ext) (simp add: project_matches_def)

lemma fuzzySearchProjects_subseq:
  "fuzzySearchProjects lower ps query =
     (if query = [] then ps
      else filter (\<lambda>p. subseq (map of_char (strings_ToLower lower query))
                          (runes (strings_ToLower lower (P_Name p)))) ps)"
  by (simp add: fuzzySearchProjects_def project_matches_subseq)

lemma runes_ascii: "list_all (\<lambda>c. (of_char c :: nat) < 128) s \<Longrightarrow> runes s = map of_char s"
  by (induction s) (auto simp: Let_def)

lemma ToLower_ascii:
  "list_all (\<lambda>c. (of_char c :: nat) < 128) s \<Longrightarrow>
   list_all (\<lambda>c. (of_char c :: nat) < 128) (strings_ToLower lower s)"
  by (induction s) (auto simp: strings_ToLower_def ascii_lower_def list_all_iff)

text \<open>
  For a query of ASCII bytes the bytes are the characters, and the matcher returns the
  projects whose lowered name contains the characters of the lowered query in order, in
  the order of the input; the empty query returns the input.
\<close>

lemma fuzzySearchProjects_ascii:
  assumes "list_all (\<lambda>c. (of_char c :: nat) < 128) query"
  shows "fuzzySearchProjects lower ps query =
     (if query = [] then ps
      else filter (\<lambda>p. subseq (runes (strings_ToLower lower query))
                          (runes (strings_ToLower lower (P_Name p)))) ps)"
  using runes_ascii[OF ToLower_ascii[OF assms, of lower]]
  by (simp add: fuzzySearchProjects_subseq)

text \<open>
  The query that \<open>updateProjectFilter\<close>, the only caller, hands to the matcher is the
  \<open>projectSearch\<close> of the form. It starts empty, is emptied when the form is reset, loses
  its last byte on \<open>backspace\<close>, and grows only by the text of a key that is one byte long
  (\<open>len(msg.String()) == 1\<close>). So it consists of ASCII characters in every state of a run.
\<close>

lemma valid_byte_ascii:
  assumes "utf8_ValidString [c]"
  shows "(of_char c :: nat) < 128"
proof (rule ccontr)
  assume "\<not> (of_char c :: nat) < 128"
  then have "runes [c] = [RuneError]"
    by (simp add: Let_def)
  with assms show False
    by (simp add: utf8_ValidString_def EncodeRune_def RuneError_def)
qed

lemma typed_char_ascii:
  assumes "typed_char s" "utf8_ValidString s"
  shows "ascii_string s"
proof -
  from assms(1) obtain c where "s = [c]"
    by (cases s) (auto simp: typed_char_def)
  with valid_byte_ascii[of c] assms(2) show ?thesis by (simp add: ascii_string_def)
qed

lemma ascii_string_simps [simp]:
  "ascii_string []"
  "ascii_string (s @ t) = (ascii_string s \<and> ascii_string t)"
  by (simp_all add: ascii_string_def)

lemma ascii_string_butlast: "ascii_string s \<Longrightarrow> ascii_string (butlast s)"
  by (auto simp: ascii_string_def list_all_iff dest: in_set_butlastD)

lemma updateProjectFilter_query [simp]:
  "projectSearch (createTaskForm (updateProjectFilter lower m)) = projectSearch (createTaskForm m)"
  by (simp add: updateProjectFilter_def Let_def split: list.splits)

lemma selectProject_query:
  "selectProject m i = Some m' \<Longrightarrow>
   projectSearch (createTaskForm m') = projectSearch (createTaskForm m)"
  by (auto simp: selectProject_def Let_def split: option.splits)

lemma projectFieldInput_query:
  assumes "projectFieldInput lower m s = Some m'"
  shows "projectSearch (createTaskForm m') = projectSearch (createTaskForm m) \<or>
         typed_char s \<and> projectSearch (createTaskForm m') = projectSearch (createTaskForm m) @ s"
  using assms unfolding projectFieldInput_def Let_def
  by (auto split: if_splits dest: selectProject_query)

lemma formBackspace_query:
  "projectSearch (createTaskForm (formBackspace lower m)) = projectSearch (createTaskForm m) \<or>
   projectSearch (createTaskForm (formBackspace lower m)) = butlast (projectSearch (createTaskForm m))"
  by (simp add: formBackspace_def Let_def split: createTaskFormField.splits)

lemma formFieldInput_query:
  assumes "formFieldInput lower m s = Some m'"
  shows "projectSearch (createTaskForm m') = projectSearch (createTaskForm m) \<or>
         typed_char s \<and> projectSearch (createTaskForm m') = projectSearch (createTaskForm m) @ s"
proof (cases "activeField (createTaskForm m)")
  case fieldProject
  with assms projectFieldInput_query[of lower m s m'] show ?thesis
    by (simp add: formFieldInput_def)
qed (use assms in \<open>auto simp: formFieldInput_def Let_def split: if_splits\<close>)

lemma handleCreateTaskInput_query:
  assumes "handleCreateTaskInput lower m k = Some (m', c)"
  shows "projectSearch (createTaskForm m') = projectSearch (createTaskForm m) \<or>
         projectSearch (createTaskForm m') = [] \<or>
         projectSearch (createTaskForm m') = butlast (projectSearch (createTaskForm m)) \<or>
         typed_char (key_String k) \<and>
         projectSearch (createTaskForm m') = projectSearch (createTaskForm m) @ key_String k"
proof (cases "formFieldInput lower m (key_String k)")
  case None
  with assms formBackspace_query[of lower m] show ?thesis
    unfolding handleCreateTaskInput_def Let_def
    by (auto simp: blankForm_def split: if_splits)
next
  case (Some m1)
  with assms formBackspace_query[of lower m] formFieldInput_query[OF Some] show ?thesis
    unfolding handleCreateTaskInput_def Let_def
    by (auto simp: blankForm_def split: if_splits)
qed

lemma Update_KeyMsg_query:
  assumes "Update lower m (KeyMsg k) = Some (m', c)"
  shows "projectSearch (createTaskForm m') = projectSearch (createTaskForm m) \<or>
         projectSearch (createTaskForm m') = [] \<or>
         projectSearch (createTaskForm m') = butlast (projectSearch (createTaskForm m)) \<or>
         typed_char (key_String k) \<and>
         projectSearch (createTaskForm m') = projectSearch (createTaskForm m) @ key_String k"
proof -
  have blank: "projectSearch (blankForm ps) = []" for ps by (simp add: blankForm_def)
  from Update_KeyMsg_cases[of lower m k] show ?thesis
  proof (elim disjE)
    assume "Update lower m (KeyMsg k) = Some (m, Quit)"
    with assms show ?thesis by simp
  next
    assume "Update lower m (KeyMsg k) =
      Some (m\<lparr>showingPopup := False, showingDeleteConfirm := True,
              taskToDelete := ID (selectedTask m)\<rparr>, nil)"
    with assms show ?thesis by auto
  next
    assume "Update lower m (KeyMsg k) = Some (handleDeleteConfirmInput m k)"
    with assms have "m' = fst (handleDeleteConfirmInput m k)" by simp
    then show ?thesis by (simp add: handleDeleteConfirmInput_form)
  next
    assume "Update lower m (KeyMsg k) = handleCreateTaskInput lower m k"
    with assms handleCreateTaskInput_query[of lower m k m' c] show ?thesis by simp
  next
    assume "Update lower m (KeyMsg k) = Some (handlePopupInput m k)"
    with assms have "m' = fst (handlePopupInput m k)" by simp
    then show ?thesis by (simp add: handlePopupInput_form)
  next
    assume "Update lower m (KeyMsg k) = Some (handleMainViewInput m k)"
    with assms have "m' = fst (handleMainViewInput m k)" by simp
    with handleMainViewInput_form[of m k] blank[of "projects m"] show ?thesis by auto
  qed
qed

lemma Update_query_ascii:
  assumes "ascii_string (projectSearch (createTaskForm m))" and "key_text_valid msg"
    and "Update lower m msg = Some (m', c)"
  shows "ascii_string (projectSearch (createTaskForm m'))"
proof (cases msg)
  case (KeyMsg k)
  with assms(2) have v: "utf8_ValidString (key_String k)" by simp
  from Update_KeyMsg_query[of lower m k m' c] assms(3) KeyMsg
  show ?thesis
    using assms(1) ascii_string_butlast[OF assms(1)] typed_char_ascii[OF _ v] by auto
next
  case (projectsLoadedMsg ps)
  with assms(1,3) show ?thesis by (cases ps) (auto simp: Update_def)
next
  case (taskCreatedMsg t)
  with assms(3) show ?thesis
    by (cases "projects m") (auto simp: Update_def createdForm_def blankForm_def)
qed (use assms(1,3) in \<open>auto simp: Update_def removeTask_def Let_def\<close>)

lemma run_query_ascii:
  assumes "list_all key_text_valid msgs" and "ascii_string (projectSearch (createTaskForm m))"
    and "run lower m msgs = Some m'"
  shows "ascii_string (projectSearch (createTaskForm m'))"
  using assms
proof (induction msgs arbitrary: m)
  case Nil
  then show ?case by simp
next
  case (Cons msg msgs)
  from Cons.prems(3) obtain m1 c where u: "Update lower m msg = Some (m1, c)"
    and r: "run lower m1 msgs = Some m'"
    by (auto split: option.splits)
  from Cons.prems(1) have "key_text_valid msg" "list_all key_text_valid msgs" by simp_all
  with Update_query_ascii[OF Cons.prems(2) _ u] Cons.IH[OF _ _ r] show ?case by simp
qed

lemma program_queries_ascii:
  assumes "list_all key_text_valid msgs" and "run lower (initialModel token cols) msgs = Some m"
  shows "ascii_string (projectSearch (createTaskForm m))"
proof -
  have "ascii_string (projectSearch (createTaskForm (initialModel token cols)))"
    by (simp add: initialModel_def blankForm_def)
  from run_query_ascii[OF assms(1) this assms(2)] show ?thesis .
qed

text \<open>
  \<open>updateProjectFilter\<close> leaves \<open>projects\<close> and \<open>projectSearch\<close> as they are, so the
  arguments of each call of the matcher are those two fields of the state that the step
  ends in. On them the matcher is the subsequence test on characters.
\<close>

lemma program_queries_matched:
  assumes "list_all key_text_valid msgs" and "run lower (initialModel token cols) msgs = Some m"
  shows "fuzzySearchProjects lower (projects m) (projectSearch (createTaskForm m)) =
     (if projectSearch (createTaskForm m) = [] then projects m
      else filter (\<lambda>p. subseq (runes (strings_ToLower lower (projectSearch (createTaskForm m))))
                          (runes (strings_ToLower lower (P_Name p)))) (projects m))"
  using program_queries_ascii[OF assms]
  by (intro fuzzySearchProjects_ascii) (simp add: ascii_string_def)

text \<open>
  C4. The empty query returns the projects unchanged. A query of ASCII characters, as
  every query of the form is, returns exactly the projects whose lowered name contains
  the characters of the lowered query in order, not necessarily next to each other, in
  the order of the input; when no name does, the result is empty. The characters of a
  text are the runes that a \<open>range\<close> loop over it visits.
\<close>

theorem fuzzy_search_subsequence:
  assumes "ascii_string query"
  shows "fuzzySearchProjects lower ps [] = ps \<and>
         fuzzySearchProjects lower ps query =
           (if query = [] then ps
            else filter (\<lambda>p. subseq (runes (strings_ToLower lower query))
                                (runes (strings_ToLower lower (P_Name p)))) ps) \<and>
         (query \<noteq> [] \<and>
          (\<forall>p \<in> set ps. \<not> subseq (runes (strings_ToLower lower query))
                                    (runes (strings_ToLower lower (P_Name p))))
          \<longrightarrow> fuzzySearchProjects lower ps query = [])"
proof -
  from assms have a: "list_all (\<lambda>c. (of_char c :: nat) < 128) query"
    by (simp add: ascii_string_def)
  have e: "fuzzySearchProjects lower ps query =
           (if query = [] then ps
            else filter (\<lambda>p. subseq (runes (strings_ToLower lower query))
                                (runes (strings_ToLower lower (P_Name p)))) ps)"
    by (rule fuzzySearchProjects_ascii[OF a])
  have n: "fuzzySearchProjects lower ps [] = ps"
    by (simp add: fuzzySearchProjects_def)
  from e n show ?thesis by (simp add: filter_empty_conv)
qed

text \<open>
  The queries "CF", "zq" and the empty one against three projects, one of them named
  "caf" followed by U+00E9: two names contain c and f in this order, none contains z
  and q. \<open>unicode.ToLower\<close> leaves the runes of the first name as they are, so \<open>id\<close>
  stands for it.
\<close>

theorem fuzzy_search_subsequence_witness:
  "ascii_string ''CF'' \<and> ascii_string ''zq'' \<and>
   fuzzySearchProjects id
     [project ''1'' [CHR ''c'', CHR ''a'', CHR ''f'', CHR 0xC3, CHR 0xA9],
      project ''2'' ''Inbox'', project ''3'' ''Coffee'']
     ''CF'' =
     [project ''1'' [CHR ''c'', CHR ''a'', CHR ''f'', CHR 0xC3, CHR 0xA9],
      project ''3'' ''Coffee''] \<and>
   fuzzySearchProjects id
     [project ''1'' [CHR ''c'', CHR ''a'', CHR ''f'', CHR 0xC3, CHR 0xA9],
      project ''2'' ''Inbox'', project ''3'' ''Coffee'']
     [] =
     [project ''1'' [CHR ''c'', CHR ''a'', CHR ''f'', CHR 0xC3, CHR 0xA9],
      project ''2'' ''Inbox'', project ''3'' ''Coffee''] \<and>
   fuzzySearchProjects id
     [project ''1'' [CHR ''c'', CHR ''a'', CHR ''f'', CHR 0xC3, CHR 0xA9],
      project ''2'' ''Inbox'', project ''3'' ''Coffee'']
     ''zq'' = []"
proof -
  let ?ps = "[project ''1'' [CHR ''c'', CHR ''a'', CHR ''f'', CHR 0xC3, CHR 0xA9],
              project ''2'' ''Inbox'', project ''3'' ''Coffee'']"
  have a: "ascii_string ''CF''" and z: "ascii_string ''zq''" by (simp_all add: ascii_string_def)
  have f: "filter (\<lambda>p. subseq (runes (strings_ToLower id ''CF''))
                          (runes (strings_ToLower id (P_Name p)))) ?ps =
           [project ''1'' [CHR ''c'', CHR ''a'', CHR ''f'', CHR 0xC3, CHR 0xA9],
            project ''3'' ''Coffee'']"
    by code_simp
  have n: "\<forall>p \<in> set ?ps. \<not> subseq (runes (strings_ToLower id ''zq''))
                                   (runes (strings_ToLower id (P_Name p)))"
    by code_simp
  from fuzzy_search_subsequence[OF z, of id ?ps] n
  have e: "fuzzySearchProjects id ?ps ''zq'' = []" by simp
  from fuzzy_search_subsequence[OF a, of id ?ps] f a z e show ?thesis by simp
qed

text \<open>
  The hypothesis is needed for the function taken by itself. The loop reads the query
  byte by byte and the name rune by rune, so a query with a character of two bytes,
  which no key of the form can type, finds no name: here the query is U+00E9 (bytes
  0xC3 0xA9) and the name is "caf" followed by U+00E9.
\<close>

lemma fuzzySearchProjects_two_byte_query:
  "runes (strings_ToLower id [CHR 0xC3, CHR 0xA9]) = [233] \<and>
   runes (strings_ToLower id [CHR ''c'', CHR ''a'', CHR ''f'', CHR 0xC3, CHR 0xA9])
     = [99, 97, 102, 233] \<and>
   fuzzySearchProjects id
     [project ''1'' [CHR ''c'', CHR ''a'', CHR ''f'', CHR 0xC3, CHR 0xA9]] [CHR 0xC3, CHR 0xA9] = []"
  by code_simp

section \<open>The cache's staleness test\<close>

text \<open>
  C7. \<open>IsStale\<close> is true exactly when no timestamp is recorded for the collection, or
  the recorded one does not parse, or the time since it (\<open>time.Since\<close>, which is the
  difference of the two instants wherever that fits a \<open>Duration\<close>) exceeds \<open>maxAge\<close>.
  Without a timestamp it is true for every \<open>maxAge\<close>; for a timestamp recorded 10
  seconds ago it is true with a \<open>maxAge\<close> of 5 seconds and false with 60 seconds.
\<close>

theorem IsStale_iff:
  "(IsStale metadata parse now cacheType maxAge \<longleftrightarrow>
      metadata (cacheType @ ''_last_updated'') = None \<or>
      (\<exists>s. metadata (cacheType @ ''_last_updated'') = Some s \<and> parse s = None) \<or>
      (\<exists>s t. metadata (cacheType @ ''_last_updated'') = Some s \<and> parse s = Some t \<and>
             maxAge < time_Since now t)) \<and>
   (minDuration \<le> now - t \<and> now - t \<le> maxDuration \<longrightarrow> time_Since now t = now - t) \<and>
   (metadata' (cacheType @ ''_last_updated'') = None \<longrightarrow>
      IsStale metadata' parse now cacheType maxAge) \<and>
   (metadata (cacheType @ ''_last_updated'') = Some s \<and> parse s = Some t \<and>
    now - t = 10 * 1000000000 \<longrightarrow>
      IsStale metadata parse now cacheType (5 * 1000000000) \<and>
      \<not> IsStale metadata parse now cacheType (60 * 1000000000))"
  by (auto simp: IsStale_def time_Since_def maxDuration_def minDuration_def Let_def
      split: option.splits)

theorem IsStale_iff_witness:
  "IsStale Map.empty (\<lambda>s. if s = ''2024-05-01T10:00:00Z'' then Some 1714557600000000000 else None)
     1714557610000000000 ''tasks'' 5000000000 \<and>
   IsStale [''tasks_last_updated'' \<mapsto> ''2024-05-01T10:00:00Z'']
     (\<lambda>s. if s = ''2024-05-01T10:00:00Z'' then Some 1714557600000000000 else None)
     1714557610000000000 ''tasks'' 5000000000 \<and>
   \<not> IsStale [''tasks_last_updated'' \<mapsto> ''2024-05-01T10:00:00Z'']
     (\<lambda>s. if s = ''2024-05-01T10:00:00Z'' then Some 1714557600000000000 else None)
     1714557610000000000 ''tasks'' 60000000000 \<and>
   time_Since 1714557610000000000 1714557600000000000 = 10000000000"
  using IsStale_iff[of "[''tasks_last_updated'' \<mapsto> ''2024-05-01T10:00:00Z'']"
      "\<lambda>s. if s = ''2024-05-01T10:00:00Z'' then Some 1714557600000000000 else None"
      1714557610000000000 "''tasks''" 5000000000 1714557600000000000 Map.empty
      "''2024-05-01T10:00:00Z''"]
  by (simp add: maxDuration_def minDuration_def)

section \<open>The project selection of the form\<close>

lemma form_consistent_updates [simp]:
  "form_consistent (f\<lparr>content := c\<rparr>) = form_consistent f"
  "form_consistent (f\<lparr>deadline := d\<rparr>) = form_consistent f"
  "form_consistent (f\<lparr>priority := p\<rparr>) = form_consistent f"
  "form_consistent (f\<lparr>activeField := a\<rparr>) = form_consistent f"
  by (simp_all add: form_consistent_def)

lemma blankForm_consistent: "form_consistent (blankForm ps)"
  by (simp add: form_consistent_def blankForm_def)

lemma createdForm_consistent: "form_consistent (createdForm ps)"
  by (cases ps) (simp_all add: form_consistent_def createdForm_def blankForm_def)

lemma updateProjectFilter_consistent:
  "form_consistent (createTaskForm (updateProjectFilter lower m))"
  by (simp add: updateProjectFilter_def form_consistent_def Let_def split: list.splits)

lemma updateProjectFilter_no_match:
  "fuzzySearchProjects lower (projects m) (projectSearch (createTaskForm m)) = [] \<Longrightarrow>
   selectedProjectIdx (createTaskForm (updateProjectFilter lower m)) = - 1 \<and>
   projectID (createTaskForm (updateProjectFilter lower m)) = []"
  by (simp add: updateProjectFilter_def Let_def)

lemma selectProject_consistent:
  assumes "0 \<le> i" "i < int (length (filteredProjects (createTaskForm m)))"
  shows "\<exists>m'. selectProject m i = Some m' \<and> form_consistent (createTaskForm m')"
  using assms by (simp add: selectProject_def index_def form_consistent_def Let_def)

lemma projectFieldInput_consistent:
  assumes "form_consistent (createTaskForm m)"
  shows "\<exists>m'. projectFieldInput lower m s = Some m' \<and> form_consistent (createTaskForm m')"
proof -
  let ?f = "createTaskForm m"
  let ?n = "int (length (filteredProjects ?f))"
  let ?i = "selectedProjectIdx ?f"
  from assms have lo: "- 1 \<le> ?i" and hi: "0 \<le> ?i \<longrightarrow> ?i < ?n"
    by (simp_all add: form_consistent_def)
  have right: "\<exists>m'. selectProject m (if ?i < ?n - 1 then ?i + 1 else 0) = Some m' \<and>
      form_consistent (createTaskForm m')" if "0 < ?n"
    using that lo by (intro selectProject_consistent) auto
  have left: "\<exists>m'. selectProject m (if 0 < ?i then ?i - 1 else ?n - 1) = Some m' \<and>
      form_consistent (createTaskForm m')" if "0 < ?n"
    using that hi by (intro selectProject_consistent) auto
  show ?thesis
    unfolding projectFieldInput_def Let_def
    using right left assms by (simp add: updateProjectFilter_consistent)
qed

lemma formBackspace_consistent:
  "form_consistent (createTaskForm m) \<Longrightarrow> form_consistent (createTaskForm (formBackspace lower m))"
  by (simp add: formBackspace_def Let_def updateProjectFilter_consistent
      split: createTaskFormField.splits)

lemma formFieldInput_consistent:
  assumes "form_consistent (createTaskForm m)"
  shows "\<exists>m'. formFieldInput lower m s = Some m' \<and> form_consistent (createTaskForm m')"
proof (cases "activeField (createTaskForm m)")
  case fieldProject
  with projectFieldInput_consistent[OF assms, of lower s] show ?thesis
    by (simp add: formFieldInput_def)
qed (use assms in \<open>simp_all add: formFieldInput_def Let_def\<close>)

lemma handleCreateTaskInput_consistent:
  assumes "form_consistent (createTaskForm m)"
  shows "\<exists>m' c. handleCreateTaskInput lower m k = Some (m', c) \<and>
           form_consistent (createTaskForm m')"
proof -
  from formFieldInput_consistent[OF assms, of lower "key_String k"]
  obtain m1 where m1: "formFieldInput lower m (key_String k) = Some m1"
    "form_consistent (createTaskForm m1)" by blast
  show ?thesis
    unfolding handleCreateTaskInput_def Let_def
    using assms m1 formBackspace_consistent[OF assms, of lower]
    by (simp add: blankForm_consistent)
qed

lemma Update_KeyMsg_consistent:
  assumes "form_consistent (createTaskForm m)"
  shows "\<exists>m' c. Update lower m (KeyMsg k) = Some (m', c) \<and> form_consistent (createTaskForm m')"
proof -
  have main: "form_consistent (createTaskForm (fst (handleMainViewInput m k)))"
    using handleMainViewInput_form[of m k] assms blankForm_consistent[of "projects m"] by auto
  have pair: "\<exists>m' c. Some r = Some (m', c) \<and> form_consistent (createTaskForm m')"
    if "form_consistent (createTaskForm (fst r))" for r :: "model \<times> Cmd"
    using that by (cases r) simp
  from Update_KeyMsg_cases[of lower m k] show ?thesis
  proof (elim disjE)
    assume "Update lower m (KeyMsg k) = Some (m, Quit)"
    with assms show ?thesis by simp
  next
    assume "Update lower m (KeyMsg k) =
      Some (m\<lparr>showingPopup := False, showingDeleteConfirm := True,
              taskToDelete := ID (selectedTask m)\<rparr>, nil)"
    with assms show ?thesis by simp
  next
    assume "Update lower m (KeyMsg k) = Some (handleDeleteConfirmInput m k)"
    with pair[of "handleDeleteConfirmInput m k"] assms show ?thesis
      by (simp add: handleDeleteConfirmInput_form)
  next
    assume "Update lower m (KeyMsg k) = handleCreateTaskInput lower m k"
    with handleCreateTaskInput_consistent[OF assms, of lower k] show ?thesis by simp
  next
    assume "Update lower m (KeyMsg k) = Some (handlePopupInput m k)"
    with pair[of "handlePopupInput m k"] assms show ?thesis
      by (simp add: handlePopupInput_form)
  next
    assume "Update lower m (KeyMsg k) = Some (handleMainViewInput m k)"
    with pair[OF main] show ?thesis by simp
  qed
qed

text \<open>
  From a consistent form every message is processed without a panic and leaves the form
  consistent, but for one: a \<open>projectsLoadedMsg\<close> with no projects.
\<close>

lemma Update_consistent:
  assumes "form_consistent (createTaskForm m)" and "msg \<noteq> projectsLoadedMsg []"
  shows "\<exists>m' c. Update lower m msg = Some (m', c) \<and> form_consistent (createTaskForm m')"
proof (cases msg)
  case (KeyMsg k)
  with Update_KeyMsg_consistent[OF assms(1), of lower k] show ?thesis by simp
next
  case (projectsLoadedMsg ps)
  with assms(2) obtain p ps' where "ps = p # ps'" by (cases ps) auto
  with projectsLoadedMsg show ?thesis by (simp add: Update_def form_consistent_def)
next
  case (taskCreatedMsg t)
  then show ?thesis by (simp add: Update_def createdForm_consistent)
qed (use assms(1) in \<open>simp_all add: Update_def removeTask_def Let_def\<close>)

text \<open>
  The handlers of the other views keep the form, or reset it, and keep the projects.
  \<open>Update\<close> never returns the command \<open>loadProjects\<close>, which \<open>Init\<close> issues once: a
  run has one \<open>projectsLoadedMsg\<close> at most.
\<close>

lemma handleDeleteConfirmInput_keeps:
  "createTaskForm (fst (handleDeleteConfirmInput m k)) = createTaskForm m \<and>
   showingCreateTask (fst (handleDeleteConfirmInput m k)) = showingCreateTask m \<and>
   projects (fst (handleDeleteConfirmInput m k)) = projects m"
  unfolding handleDeleteConfirmInput_def Let_def by simp

lemma handlePopupInput_keeps:
  "createTaskForm (fst (handlePopupInput m k)) = createTaskForm m \<and>
   showingCreateTask (fst (handlePopupInput m k)) = showingCreateTask m \<and>
   projects (fst (handlePopupInput m k)) = projects m"
  unfolding handlePopupInput_def Let_def by simp

lemma handleMainViewInput_keeps:
  "projects (fst (handleMainViewInput m k)) = projects m \<and>
   (createTaskForm (fst (handleMainViewInput m k)) = createTaskForm m \<and>
    showingCreateTask (fst (handleMainViewInput m k)) = showingCreateTask m \<or>
    createTaskForm (fst (handleMainViewInput m k)) = blankForm (projects m))"
  unfolding handleMainViewInput_def Let_def by (simp add: moveUp_def moveDown_def Let_def)

lemma Update_KeyMsg_dispatch:
  "Update lower m (KeyMsg k) = Some (m, Quit) \<or>
   Update lower m (KeyMsg k) =
     Some (m\<lparr>showingPopup := False, showingDeleteConfirm := True,
             taskToDelete := ID (selectedTask m)\<rparr>, nil) \<or>
   Update lower m (KeyMsg k) = Some (handleDeleteConfirmInput m k) \<or>
   showingCreateTask m \<and> Update lower m (KeyMsg k) = handleCreateTaskInput lower m k \<or>
   Update lower m (KeyMsg k) = Some (handlePopupInput m k) \<or>
   Update lower m (KeyMsg k) = Some (handleMainViewInput m k)"
  unfolding Update_def by simp

lemma handleCreateTaskInput_no_loadProjects:
  "handleCreateTaskInput lower m k \<noteq> Some (m', loadProjects)"
  unfolding handleCreateTaskInput_def Let_def by (simp split: option.splits)

lemma Update_no_loadProjects: "Update lower m msg \<noteq> Some (m', loadProjects)"
proof (cases msg)
  case (KeyMsg k)
  have a: "snd (handleDeleteConfirmInput m k) \<noteq> loadProjects"
    unfolding handleDeleteConfirmInput_def Let_def by simp
  have b: "snd (handlePopupInput m k) \<noteq> loadProjects"
    unfolding handlePopupInput_def Let_def by simp
  have c: "snd (handleMainViewInput m k) \<noteq> loadProjects"
    unfolding handleMainViewInput_def Let_def by simp
  have pair: "Some r \<noteq> Some (m', loadProjects)" if "snd r \<noteq> loadProjects"
    for r :: "model \<times> Cmd"
    using that by (cases r) simp
  from Update_KeyMsg_dispatch[of lower m k] show ?thesis
    unfolding KeyMsg
  proof (elim disjE conjE)
    assume "Update lower m (KeyMsg k) = Some (m, Quit)"
    then show "Update lower m (KeyMsg k) \<noteq> Some (m', loadProjects)" by simp
  next
    assume "Update lower m (KeyMsg k) =
      Some (m\<lparr>showingPopup := False, showingDeleteConfirm := True,
              taskToDelete := ID (selectedTask m)\<rparr>, nil)"
    then show "Update lower m (KeyMsg k) \<noteq> Some (m', loadProjects)" by simp
  next
    assume "Update lower m (KeyMsg k) = Some (handleDeleteConfirmInput m k)"
    with pair[OF a] show "Update lower m (KeyMsg k) \<noteq> Some (m', loadProjects)" by simp
  next
    assume "Update lower m (KeyMsg k) = handleCreateTaskInput lower m k"
    with handleCreateTaskInput_no_loadProjects[of lower m k m']
    show "Update lower m (KeyMsg k) \<noteq> Some (m', loadProjects)" by simp
  next
    assume "Update lower m (KeyMsg k) = Some (handlePopupInput m k)"
    with pair[OF b] show "Update lower m (KeyMsg k) \<noteq> Some (m', loadProjects)" by simp
  next
    assume "Update lower m (KeyMsg k) = Some (handleMainViewInput m k)"
    with pair[OF c] show "Update lower m (KeyMsg k) \<noteq> Some (m', loadProjects)" by simp
  qed
qed (simp_all add: Update_def)

text \<open>
  Until the projects arrive no project is selected, whatever is typed into the form.
\<close>

lemma unloaded_updates [simp]:
  "unloaded (m\<lparr>createTaskForm := (createTaskForm m)\<lparr>content := x\<rparr>\<rparr>) = unloaded m"
  "unloaded (m\<lparr>createTaskForm := (createTaskForm m)\<lparr>deadline := d\<rparr>\<rparr>) = unloaded m"
  "unloaded (m\<lparr>createTaskForm := (createTaskForm m)\<lparr>priority := p\<rparr>\<rparr>) = unloaded m"
  "unloaded (m\<lparr>createTaskForm := (createTaskForm m)\<lparr>activeField := a\<rparr>\<rparr>) = unloaded m"
  "unloaded (m\<lparr>createTaskForm := (createTaskForm m)\<lparr>projectSearch := q\<rparr>\<rparr>) = unloaded m"
  "unloaded (m\<lparr>creating := cr\<rparr>) = unloaded m"
  by (simp_all add: unloaded_def)

lemma updateProjectFilter_unloaded:
  "projects m = [] \<Longrightarrow> unloaded (updateProjectFilter lower m)"
  by (simp add: updateProjectFilter_def unloaded_def fuzzySearchProjects_def Let_def)

lemma projectFieldInput_unloaded:
  assumes "unloaded m"
  shows "\<exists>m'. projectFieldInput lower m s = Some m' \<and> unloaded m'"
proof -
  from assms have p: "projects m = []" and f: "filteredProjects (createTaskForm m) = []"
    by (simp_all add: unloaded_def)
  have "unloaded (updateProjectFilter lower
          (m\<lparr>createTaskForm := (createTaskForm m)\<lparr>projectSearch := q\<rparr>\<rparr>))" for q
    by (rule updateProjectFilter_unloaded) (simp add: p)
  with assms f show ?thesis
    unfolding projectFieldInput_def Let_def by simp
qed

lemma formBackspace_unloaded:
  assumes "unloaded m"
  shows "unloaded (formBackspace lower m)"
proof -
  from assms have p: "projects m = []" by (simp add: unloaded_def)
  have "unloaded (updateProjectFilter lower
          (m\<lparr>createTaskForm := (createTaskForm m)\<lparr>projectSearch := q\<rparr>\<rparr>))" for q
    by (rule updateProjectFilter_unloaded) (simp add: p)
  with assms show ?thesis
    by (simp add: formBackspace_def Let_def split: createTaskFormField.splits)
qed

lemma formFieldInput_unloaded:
  assumes "unloaded m"
  shows "\<exists>m'. formFieldInput lower m s = Some m' \<and> unloaded m'"
proof (cases "activeField (createTaskForm m)")
  case fieldProject
  with projectFieldInput_unloaded[OF assms, of lower s] show ?thesis
    by (simp add: formFieldInput_def)
qed (use assms in \<open>simp_all add: formFieldInput_def Let_def\<close>)

lemma handleCreateTaskInput_unloaded:
  assumes "unloaded m"
  shows "\<exists>m' c. handleCreateTaskInput lower m k = Some (m', c) \<and> unloaded m'"
proof -
  from formFieldInput_unloaded[OF assms, of lower "key_String k"]
  obtain m1 where m1: "formFieldInput lower m (key_String k) = Some m1" "unloaded m1" by blast
  from assms have b: "unloaded (m\<lparr>showingCreateTask := False,
                                   createTaskForm := blankForm (projects m)\<rparr>)"
    by (simp add: unloaded_def blankForm_def)
  show ?thesis
    unfolding handleCreateTaskInput_def Let_def
    using assms m1 b formBackspace_unloaded[OF assms, of lower]
    by simp
qed

text \<open>
  Every message but a project load keeps the state of before the load, and keeps the
  form consistent after it; the project load leads from the one to the other.
\<close>

lemma Update_KeyMsg_shape:
  "(\<exists>m' c. Update lower m (KeyMsg k) = Some (m', c) \<and> kept m m') \<or>
   showingCreateTask m \<and> Update lower m (KeyMsg k) = handleCreateTaskInput lower m k"
proof -
  have pair: "\<exists>m' c. Some r = Some (m', c) \<and> kept m m'" if "kept m (fst r)"
    for r :: "model \<times> Cmd"
    using that by (cases r) simp
  from Update_KeyMsg_dispatch[of lower m k] show ?thesis
  proof (elim disjE)
    assume "Update lower m (KeyMsg k) = Some (m, Quit)"
    then show ?thesis by (simp add: kept_def)
  next
    assume "Update lower m (KeyMsg k) =
      Some (m\<lparr>showingPopup := False, showingDeleteConfirm := True,
              taskToDelete := ID (selectedTask m)\<rparr>, nil)"
    then show ?thesis by (simp add: kept_def)
  next
    assume u: "Update lower m (KeyMsg k) = Some (handleDeleteConfirmInput m k)"
    have "kept m (fst (handleDeleteConfirmInput m k))"
      by (simp add: kept_def handleDeleteConfirmInput_keeps)
    from pair[OF this] u show ?thesis by simp
  next
    assume "showingCreateTask m \<and> Update lower m (KeyMsg k) = handleCreateTaskInput lower m k"
    then show ?thesis by simp
  next
    assume u: "Update lower m (KeyMsg k) = Some (handlePopupInput m k)"
    have "kept m (fst (handlePopupInput m k))"
      by (simp add: kept_def handlePopupInput_keeps)
    from pair[OF this] u show ?thesis by simp
  next
    assume u: "Update lower m (KeyMsg k) = Some (handleMainViewInput m k)"
    have "kept m (fst (handleMainViewInput m k))"
      using handleMainViewInput_keeps[of m k] by (auto simp: kept_def)
    from pair[OF this] u show ?thesis by simp
  qed
qed

lemma Update_shape:
  assumes "\<not> projectsLoaded msg"
  shows "(\<exists>m' c. Update lower m msg = Some (m', c) \<and> kept m m') \<or>
         (\<exists>k. msg = KeyMsg k \<and> showingCreateTask m \<and>
               Update lower m msg = handleCreateTaskInput lower m k)"
proof (cases msg)
  case (KeyMsg k)
  with Update_KeyMsg_shape[of lower m k] show ?thesis by simp
next
  case (projectsLoadedMsg ps)
  with assms show ?thesis by simp
qed (simp_all add: Update_def kept_def removeTask_def Let_def)

lemma kept_before_load:
  assumes "before_load b m" "kept m m'"
  shows "before_load b m'"
  using assms by (auto simp: before_load_def kept_def blankForm_def createdForm_def)

lemma kept_form_ok:
  assumes "form_ok b m" "kept m m'"
  shows "form_ok b m'"
  using assms blankForm_consistent[of "projects m"] createdForm_consistent[of "projects m"]
  by (auto simp: form_ok_def kept_def)

lemma Update_before_load:
  assumes "before_load b m" and "\<not> projectsLoaded msg"
  shows "\<exists>m' c. Update lower m msg = Some (m', c) \<and> before_load b m'"
  using Update_shape[OF assms(2), of lower m]
proof (elim disjE exE conjE)
  fix m' c assume "Update lower m msg = Some (m', c)" "kept m m'"
  with kept_before_load[OF assms(1)] show ?thesis by blast
next
  fix k assume k: "msg = KeyMsg k" "showingCreateTask m"
    "Update lower m msg = handleCreateTaskInput lower m k"
  with assms(1) have "unloaded m" by (simp add: before_load_def unloaded_def)
  from handleCreateTaskInput_unloaded[OF this, of lower k] k(3) show ?thesis
    by (auto simp: before_load_def unloaded_def)
qed

lemma Update_form_ok:
  assumes "form_ok b m" and "\<not> projectsLoaded msg"
  shows "\<exists>m' c. Update lower m msg = Some (m', c) \<and> form_ok b m'"
  using Update_shape[OF assms(2), of lower m]
proof (elim disjE exE conjE)
  fix m' c assume "Update lower m msg = Some (m', c)" "kept m m'"
  with kept_form_ok[OF assms(1)] show ?thesis by blast
next
  fix k assume k: "msg = KeyMsg k" "showingCreateTask m"
    "Update lower m msg = handleCreateTaskInput lower m k"
  with assms(1) have "form_consistent (createTaskForm m)" by (simp add: form_ok_def)
  from handleCreateTaskInput_consistent[OF this, of lower k] k(3) show ?thesis
    by (auto simp: form_ok_def)
qed

lemma load_before_load:
  assumes "before_load b m"
  shows "\<exists>m'. Update lower m (projectsLoadedMsg ps) = Some (m', nil) \<and> form_ok b m'"
  using assms
  by (cases ps) (auto simp: Update_def before_load_def form_ok_def form_consistent_def)

lemma before_load_form_ok: "before_load b m \<Longrightarrow> form_ok b m"
  by (simp add: before_load_def form_ok_def form_consistent_def)

lemma run_form_ok:
  assumes "form_ok b m" and "filter projectsLoaded msgs = []"
  shows "\<exists>m'. run lower m msgs = Some m' \<and> form_ok b m'"
  using assms
proof (induction msgs arbitrary: m)
  case Nil
  then show ?case by simp
next
  case (Cons msg msgs)
  from Cons.prems(2) have n: "\<not> projectsLoaded msg" and r: "filter projectsLoaded msgs = []"
    by (simp_all split: if_splits)
  from Update_form_ok[OF Cons.prems(1) n, of lower]
  obtain m1 c where u: "Update lower m msg = Some (m1, c)" and ok: "form_ok b m1" by blast
  from Cons.IH[OF ok r] u show ?case by simp
qed

lemma run_before_load:
  assumes "before_load b m" and "length (filter projectsLoaded msgs) \<le> 1"
  shows "\<exists>m'. run lower m msgs = Some m' \<and> form_ok b m'"
  using assms
proof (induction msgs arbitrary: m)
  case Nil
  then show ?case by (simp add: before_load_form_ok)
next
  case (Cons msg msgs)
  show ?case
  proof (cases "projectsLoaded msg")
    case True
    then obtain ps where msg: "msg = projectsLoadedMsg ps" by (cases msg) simp_all
    from Cons.prems(2) True have r: "filter projectsLoaded msgs = []" by simp
    from load_before_load[OF Cons.prems(1), of lower ps]
    obtain m1 where u: "Update lower m msg = Some (m1, nil)" and ok: "form_ok b m1"
      unfolding msg by blast
    from run_form_ok[OF ok r, of lower] u show ?thesis by simp
  next
    case False
    with Cons.prems(2) have r: "length (filter projectsLoaded msgs) \<le> 1" by simp
    from Update_before_load[OF Cons.prems(1) False, of lower]
    obtain m1 c where u: "Update lower m msg = Some (m1, c)" and bl: "before_load b m1" by blast
    from Cons.IH[OF bl r] u show ?thesis by simp
  qed
qed

lemma initialModel_before_load: "before_load (token \<noteq> []) (initialModel token cols)"
  by (simp add: before_load_def initialModel_def blankForm_def)

text \<open>
  C10. In every state of a run of the program, which sees at most one
  \<open>projectsLoadedMsg\<close>, all messages are processed without a panic and the project
  selection of the form is consistent: \<open>selectedProjectIdx\<close> is \<open>-1\<close>, or it is an index
  into \<open>filteredProjects\<close> and \<open>projectID\<close> and \<open>projectName\<close> are those of the project
  there. This holds in every state of a program started with a token, and whenever the
  form is open in one started without. A re-filter that finds no match sets
  \<open>selectedProjectIdx\<close> to \<open>-1\<close> and empties \<open>projectID\<close>. From a consistent form every
  message (typing, backspace, the arrow keys with their wraparound, a load that brings
  projects, the resets of the form) leads to a consistent form again.
\<close>

theorem form_project_selection:
  assumes "length (filter projectsLoaded msgs) \<le> 1"
  shows "\<exists>m. run lower (initialModel token cols) msgs = Some m \<and>
           (token \<noteq> [] \<or> showingCreateTask m \<longrightarrow> form_consistent (createTaskForm m)) \<and>
           (fuzzySearchProjects lower (projects m) (projectSearch (createTaskForm m)) = [] \<longrightarrow>
              selectedProjectIdx (createTaskForm (updateProjectFilter lower m)) = - 1 \<and>
              projectID (createTaskForm (updateProjectFilter lower m)) = []) \<and>
           (\<forall>msg. form_consistent (createTaskForm m) \<and> msg \<noteq> projectsLoadedMsg [] \<longrightarrow>
              (\<exists>m' c. Update lower m msg = Some (m', c) \<and>
                       form_consistent (createTaskForm m')))"
proof -
  from run_before_load[OF initialModel_before_load assms, of lower token cols]
  obtain m where r: "run lower (initialModel token cols) msgs = Some m"
    and ok: "form_ok (token \<noteq> []) m" by blast
  have step: "\<exists>m' c. Update lower m msg = Some (m', c) \<and> form_consistent (createTaskForm m')"
    if "form_consistent (createTaskForm m) \<and> msg \<noteq> projectsLoadedMsg []" for msg
    using that Update_consistent[of m msg lower] by blast
  from ok have "token \<noteq> [] \<or> showingCreateTask m \<longrightarrow> form_consistent (createTaskForm m)"
    by (simp add: form_ok_def)
  with r updateProjectFilter_no_match[of lower m] step show ?thesis by blast
qed

text \<open>
  Two projects arrive, the form is opened, the project field is reached with two tabs,
  and two presses of the right arrow select the second project; the left arrow then
  leaves the form consistent. When z is typed instead, no project matches and none is
  selected.
\<close>

theorem form_project_selection_witness:
  "length (filter projectsLoaded
     [projectsLoadedMsg [project ''p1'' ''Inbox'', project ''p2'' ''Work''],
      key ''q'', key ''tab'', key ''tab'', key ''right'', key ''right'']) \<le> 1 \<and>
   (\<exists>m. run id (initialModel ''token'' [])
           [projectsLoadedMsg [project ''p1'' ''Inbox'', project ''p2'' ''Work''],
            key ''q'', key ''tab'', key ''tab'', key ''right'', key ''right''] = Some m \<and>
        form_consistent (createTaskForm m) \<and>
        selectedProjectIdx (createTaskForm m) = 1 \<and> projectID (createTaskForm m) = ''p2'' \<and>
        (\<exists>m' c. Update id m (key ''left'') = Some (m', c) \<and>
                 form_consistent (createTaskForm m'))) \<and>
   length (filter projectsLoaded
     [projectsLoadedMsg [project ''p1'' ''Inbox'', project ''p2'' ''Work''],
      key ''q'', key ''tab'', key ''tab'', key ''right'', key ''right'', key ''z'']) \<le> 1 \<and>
   (\<exists>m. run id (initialModel ''token'' [])
           [projectsLoadedMsg [project ''p1'' ''Inbox'', project ''p2'' ''Work''],
            key ''q'', key ''tab'', key ''tab'', key ''right'', key ''right'', key ''z''] = Some m \<and>
        form_consistent (createTaskForm m) \<and>
        fuzzySearchProjects id (projects m) (projectSearch (createTaskForm m)) = [] \<and>
        selectedProjectIdx (createTaskForm (updateProjectFilter id m)) = - 1 \<and>
        projectID (createTaskForm (updateProjectFilter id m)) = [])"
proof -
  let ?A = "[projectsLoadedMsg [project ''p1'' ''Inbox'', project ''p2'' ''Work''],
      key ''q'', key ''tab'', key ''tab'', key ''right'', key ''right'']"
  let ?B = "[projectsLoadedMsg [project ''p1'' ''Inbox'', project ''p2'' ''Work''],
      key ''q'', key ''tab'', key ''tab'', key ''right'', key ''right'', key ''z'']"
  have a: "length (filter projectsLoaded ?A) \<le> 1" by (simp add: key_def)
  from form_project_selection[OF a, of id "''token''" "[]"]
  obtain m where r: "run id (initialModel ''token'' []) ?A = Some m"
    and fc: "form_consistent (createTaskForm m)"
    and st: "\<forall>msg. form_consistent (createTaskForm m) \<and> msg \<noteq> projectsLoadedMsg [] \<longrightarrow>
              (\<exists>m' c. Update id m msg = Some (m', c) \<and> form_consistent (createTaskForm m'))"
    by auto
  from st fc have left: "\<exists>m' c. Update id m (key ''left'') = Some (m', c) \<and>
      form_consistent (createTaskForm m')"
    by (simp add: key_def)
  have "map_option (selectedProjectIdx \<circ> createTaskForm) (run id (initialModel ''token'' []) ?A)
        = Some 1 \<and>
        map_option (projectID \<circ> createTaskForm) (run id (initialModel ''token'' []) ?A)
        = Some ''p2''"
    by (simp add: initialModel_def Update_def key_def handleMainViewInput_def
        handleCreateTaskInput_def formFieldInput_def projectFieldInput_def selectProject_def
        index_def nextField_def blankForm_def project_def Let_def)
  with r have i: "selectedProjectIdx (createTaskForm m) = 1 \<and> projectID (createTaskForm m) = ''p2''"
    by simp
  from r fc i left have first:
    "\<exists>m. run id (initialModel ''token'' []) ?A = Some m \<and> form_consistent (createTaskForm m) \<and>
         selectedProjectIdx (createTaskForm m) = 1 \<and> projectID (createTaskForm m) = ''p2'' \<and>
         (\<exists>m' c. Update id m (key ''left'') = Some (m', c) \<and>
                  form_consistent (createTaskForm m'))"
    by blast
  have b: "length (filter projectsLoaded ?B) \<le> 1" by (simp add: key_def)
  from form_project_selection[OF b, of id "''token''" "[]"]
  obtain n where rn: "run id (initialModel ''token'' []) ?B = Some n"
    and fn: "form_consistent (createTaskForm n)"
    and nm: "fuzzySearchProjects id (projects n) (projectSearch (createTaskForm n)) = [] \<longrightarrow>
              selectedProjectIdx (createTaskForm (updateProjectFilter id n)) = - 1 \<and>
              projectID (createTaskForm (updateProjectFilter id n)) = []"
    by auto
  have z: "CHR ''z'' \<noteq> char_of (27::nat)" by code_simp
  have "map_option (\<lambda>m. fuzzySearchProjects id (projects m) (projectSearch (createTaskForm m)))
          (run id (initialModel ''token'' []) ?B) = Some []"
    by (simp add: z initialModel_def Update_def key_def handleMainViewInput_def
        handleCreateTaskInput_def formFieldInput_def projectFieldInput_def selectProject_def
        index_def nextField_def blankForm_def project_def Let_def typed_char_def
        updateProjectFilter_def fuzzySearchProjects_def project_matches_def strings_ToLower_def
        ascii_lower_def)
  with rn have "fuzzySearchProjects id (projects n) (projectSearch (createTaskForm n)) = []"
    by simp
  with rn fn nm have second:
    "\<exists>m. run id (initialModel ''token'' []) ?B = Some m \<and> form_consistent (createTaskForm m) \<and>
         fuzzySearchProjects id (projects m) (projectSearch (createTaskForm m)) = [] \<and>
         selectedProjectIdx (createTaskForm (updateProjectFilter id m)) = - 1 \<and>
         projectID (createTaskForm (updateProjectFilter id m)) = []"
    by blast
  from a first b second show ?thesis by blast
qed

text \<open>
  The bound on the project loads is needed for \<open>Update\<close> taken by itself. Were a second
  \<open>projectsLoadedMsg\<close> to arrive with no projects after a first one with a project,
  \<open>filteredProjects\<close> would be empty with \<open>selectedProjectIdx\<close> left at 0: the case
  \<open>len(m.projects) > 0\<close> has no counterpart for the empty list.
\<close>

lemma second_load_empty:
  "map_option (selectedProjectIdx \<circ> createTaskForm)
     (run id (initialModel ''token'' []) [projectsLoadedMsg [project ''p1'' ''Inbox'']])
   = Some 0 \<and>
   map_option (filteredProjects \<circ> createTaskForm)
     (run id (initialModel ''token'' [])
        [projectsLoadedMsg [project ''p1'' ''Inbox''], projectsLoadedMsg []])
   = Some [] \<and>
   map_option (selectedProjectIdx \<circ> createTaskForm)
     (run id (initialModel ''token'' [])
        [projectsLoadedMsg [project ''p1'' ''Inbox''], projectsLoadedMsg []])
   = Some 0 \<and>
   map_option (projectID \<circ> createTaskForm)
     (run id (initialModel ''token'' [])
        [projectsLoadedMsg [project ''p1'' ''Inbox''], projectsLoadedMsg []])
   = Some ''p1''"
  by (simp add: Update_def initialModel_def blankForm_def project_def)

section \<open>Today's tasks: filter and order\<close>

lemma decimal_digit: "is_digit c \<Longrightarrow> decimal (digit c) = c"
proof -
  assume "is_digit c"
  then have "digit c + 48 = (of_char c :: nat)" by (simp add: is_digit_def digit_def)
  then show ?thesis by (simp add: decimal_def)
qed

lemma digit_le_9: "is_digit c \<Longrightarrow> digit c \<le> 9"
  unfolding is_digit_def digit_def by linarith

lemma div_mod_digit: "r < n \<Longrightarrow> (q * n + r) div n = q \<and> (q * n + r) mod n = r" for n q r :: nat
  by simp

lemma four_digits:
  fixes a b c d :: nat
  assumes "a \<le> 9" "b \<le> 9" "c \<le> 9" "d \<le> 9"
  shows "(a * 1000 + b * 100 + c * 10 + d) div 1000 = a"
    and "(a * 1000 + b * 100 + c * 10 + d) div 100 mod 10 = b"
    and "(a * 1000 + b * 100 + c * 10 + d) div 10 mod 10 = c"
    and "(a * 1000 + b * 100 + c * 10 + d) mod 10 = d"
proof -
  let ?x = "a * 1000 + b * 100 + c * 10 + d"
  have e1: "?x = a * 1000 + (b * 100 + c * 10 + d)" by simp
  have e2: "?x = (a * 10 + b) * 100 + (c * 10 + d)" by simp
  have e3: "?x = (a * 100 + b * 10 + c) * 10 + d" by simp
  have e4: "a * 100 + b * 10 + c = (a * 10 + b) * 10 + c" by simp
  show "?x div 1000 = a"
    unfolding e1 by (rule div_mod_digit[THEN conjunct1]) (use assms in simp)
  have "?x div 100 = a * 10 + b"
    unfolding e2 by (rule div_mod_digit[THEN conjunct1]) (use assms in simp)
  moreover have "(a * 10 + b) mod 10 = b"
    by (rule div_mod_digit[THEN conjunct2]) (use assms in simp)
  ultimately show "?x div 100 mod 10 = b" by (simp only:)
  have "?x div 10 = a * 100 + b * 10 + c"
    unfolding e3 by (rule div_mod_digit[THEN conjunct1]) (use assms in simp)
  moreover have "(a * 100 + b * 10 + c) mod 10 = c"
    unfolding e4 by (rule div_mod_digit[THEN conjunct2]) (use assms in simp)
  ultimately show "?x div 10 mod 10 = c" by (simp only:)
  show "?x mod 10 = d"
    unfolding e3 by (rule div_mod_digit[THEN conjunct2]) (use assms in simp)
qed

lemma two_digits:
  fixes a b :: nat
  assumes "a \<le> 9" "b \<le> 9"
  shows "(a * 10 + b) div 10 = a" and "(a * 10 + b) mod 10 = b"
  by (rule div_mod_digit[THEN conjunct1], use assms in simp)
     (rule div_mod_digit[THEN conjunct2], use assms in simp)

lemma list10:
  assumes "length s = 10"
  shows "s = [s ! 0, s ! 1, s ! 2, s ! 3, s ! 4, s ! 5, s ! 6, s ! 7, s ! 8, s ! 9]"
proof (rule nth_equalityI)
  show "length s = length [s ! 0, s ! 1, s ! 2, s ! 3, s ! 4, s ! 5, s ! 6, s ! 7, s ! 8, s ! 9]"
    using assms by simp
next
  fix i assume "i < length s"
  with assms have "i \<in> {0, 1, 2, 3, 4, 5, 6, 7, 8, 9}" by auto
  then show "s ! i = [s ! 0, s ! 1, s ! 2, s ! 3, s ! 4, s ! 5, s ! 6, s ! 7, s ! 8, s ! 9] ! i"
    by auto
qed

lemma time_Parse_canonical:
  assumes "time_Parse s = Some ymd"
  shows "s = canonical_day ymd"
proof -
  from assms have len: "length s = 10"
    and dg: "is_digit (s ! 0)" "is_digit (s ! 1)" "is_digit (s ! 2)" "is_digit (s ! 3)"
      "is_digit (s ! 5)" "is_digit (s ! 6)" "is_digit (s ! 8)" "is_digit (s ! 9)"
    and dash: "s ! 4 = CHR ''-''" "s ! 7 = CHR ''-''"
    by (auto simp: time_Parse_def split: if_splits)
  from assms len dg dash have ymd: "ymd =
      (digit (s ! 0) * 1000 + digit (s ! 1) * 100 + digit (s ! 2) * 10 + digit (s ! 3),
       digit (s ! 5) * 10 + digit (s ! 6), digit (s ! 8) * 10 + digit (s ! 9))"
    by (simp add: time_Parse_def Let_def split: if_splits)
  note le = dg[THEN digit_le_9]
  note y = four_digits[OF le(1-4)]
  note m = two_digits[OF le(5,6)]
  note d = two_digits[OF le(7,8)]
  have "canonical_day ymd = [s ! 0, s ! 1, s ! 2, s ! 3, s ! 4, s ! 5, s ! 6, s ! 7, s ! 8, s ! 9]"
    unfolding ymd canonical_day_def prod.case y m d
    using dg dash by (simp add: decimal_digit)
  with list10[OF len] show ?thesis by simp
qed

lemma time_Parse_inj:
  "time_Parse s = Some ymd \<Longrightarrow> time_Parse s' = Some ymd \<Longrightarrow> s = s'"
  using time_Parse_canonical[of s ymd] time_Parse_canonical[of s' ymd] by simp


lemma qualifies_facts:
  assumes "time_Parse today = Some T" "dueTodayOrOverdue today task"
  obtains due d where "Due task = Some due" "time_Parse (Date due) = Some d" "d \<le> T"
    "isOverdue (Date due) today = (d < T)"
proof -
  from assms(2) obtain due where due: "Due task = Some due"
    and c: "Date due = today \<or> isOverdue (Date due) today"
    by (auto simp: dueTodayOrOverdue_def split: option.splits)
  from c show thesis
  proof
    assume "Date due = today"
    with assms(1) have "time_Parse (Date due) = Some T" "isOverdue (Date due) today = (T < T)"
      by (simp_all add: isOverdue_def)
    with due that[of due T] show thesis by simp
  next
    assume "isOverdue (Date due) today"
    with assms(1) obtain d where "time_Parse (Date due) = Some d" "d < T"
      by (auto simp: isOverdue_def split: option.splits)
    with due assms(1) that[of due d] show thesis by (simp add: isOverdue_def)
  qed
qed

lemma dueTodayOrOverdue_iff:
  assumes "time_Parse today = Some T"
  shows "dueTodayOrOverdue today task = on_or_before T task"
proof
  assume "dueTodayOrOverdue today task"
  with assms obtain due d where "Due task = Some due" "time_Parse (Date due) = Some d" "d \<le> T"
    by (rule qualifies_facts)
  then show "on_or_before T task"
    by (simp add: on_or_before_def due_day_def)
next
  assume "on_or_before T task"
  then obtain due d where due: "Due task = Some due" and d: "time_Parse (Date due) = Some d"
    and le: "d \<le> T"
    by (auto simp: on_or_before_def due_day_def split: option.splits)
  show "dueTodayOrOverdue today task"
  proof (cases "d < T")
    case True
    with due d assms show ?thesis by (simp add: dueTodayOrOverdue_def isOverdue_def)
  next
    case False
    with le have "d = T" by simp
    with d have "time_Parse (Date due) = Some T" by simp
    from time_Parse_inj[OF this assms] have "Date due = today" .
    with due show ?thesis by (simp add: dueTodayOrOverdue_def)
  qed
qed

lemma lessTodaysTasks_key:
  assumes T: "time_Parse today = Some T"
    and a: "dueTodayOrOverdue today a" and b: "dueTodayOrOverdue today b"
  shows "lessTodaysTasks today a b = (sort_key T a < sort_key T b)"
proof -
  from T a obtain da xa where fa: "Due a = Some da" "time_Parse (Date da) = Some xa" "xa \<le> T"
    "isOverdue (Date da) today = (xa < T)" by (rule qualifies_facts)
  from T b obtain db xb where fb: "Due b = Some db" "time_Parse (Date db) = Some xb" "xb \<le> T"
    "isOverdue (Date db) today = (xb < T)" by (rule qualifies_facts)
  show ?thesis
    by (cases "xa < T"; cases "xb < T")
       (simp_all add: lessTodaysTasks_def sort_key_def due_day_def fa fb)
qed

lemma isCacheTaskOverdue_eq: "isCacheTaskOverdue = isOverdue"
  by (intro ext) (simp only: isCacheTaskOverdue_def isOverdue_def)

lemma cache_same_test: "cacheDueTodayOrOverdue = dueTodayOrOverdue"
  by (intro ext) (simp only: cacheDueTodayOrOverdue_def dueTodayOrOverdue_def
      isCacheTaskOverdue_eq)

lemma cache_same_less: "lessCachedTasks = lessTodaysTasks"
  by (intro ext) (simp only: lessCachedTasks_def lessTodaysTasks_def isCacheTaskOverdue_eq)

lemma LoadTodaysTasks_GetTodaysTasks:
  "LoadTodaysTasks sortSlice today loaded = GetTodaysTasks sortSlice today None loaded"
  by (simp add: LoadTodaysTasks_def GetTodaysTasks_def cache_same_test cache_same_less
      split: sum.splits)

lemma lessTodaysTasks_transitive:
  assumes "time_Parse today = Some T" "\<forall>t\<in>A. dueTodayOrOverdue today t"
  shows "transitive_ordering (lessTodaysTasks today) A"
proof -
  have k: "lessTodaysTasks today a b = (sort_key T a < sort_key T b)" if "a \<in> A" "b \<in> A" for a b
    using that assms by (simp add: lessTodaysTasks_key)
  have "\<not> lessTodaysTasks today x x" if "x \<in> A" for x
    using that by (simp add: k)
  moreover have "lessTodaysTasks today x z"
    if "x \<in> A" "y \<in> A" "z \<in> A" "lessTodaysTasks today x y" "lessTodaysTasks today y z" for x y z
    using that less_trans[of "sort_key T x" "sort_key T y" "sort_key T z"] by (simp add: k)
  moreover have "\<not> lessTodaysTasks today x z"
    if "x \<in> A" "y \<in> A" "z \<in> A" "\<not> lessTodaysTasks today x y" "\<not> lessTodaysTasks today y z"
    for x y z
    using that order_trans[of "sort_key T z" "sort_key T y" "sort_key T x"]
    by (simp add: k not_less)
  ultimately show ?thesis unfolding transitive_ordering_def by blast
qed

lemma sorted_by_key:
  assumes c: "sort_Slice_contract sortSlice" and T: "time_Parse today = Some T"
    and r: "GetTodaysTasks sortSlice today None (Inr fetched) = Inr result"
  shows "mset result = mset (filter (on_or_before T) fetched)"
    and "sorted_wrt (\<lambda>a b. sort_key T a \<le> sort_key T b) result"
proof -
  let ?xs = "filter (dueTodayOrOverdue today) fetched"
  from r have res: "result = sortSlice (lessTodaysTasks today) ?xs"
    by (simp add: GetTodaysTasks_def)
  from c have m: "mset result = mset ?xs"
    unfolding res sort_Slice_contract_def by blast
  have q: "\<forall>t\<in>set ?xs. dueTodayOrOverdue today t" by simp
  from c lessTodaysTasks_transitive[OF T q]
  have s: "sorted_wrt (\<lambda>a b. \<not> lessTodaysTasks today b a) result"
    unfolding res sort_Slice_contract_def by blast
  from m show "mset result = mset (filter (on_or_before T) fetched)"
    using dueTodayOrOverdue_iff[OF T] by (simp cong: filter_cong)
  from m have "set result = set ?xs" by (rule mset_eq_setD)
  with q have qr: "\<forall>t\<in>set result. dueTodayOrOverdue today t" by simp
  show "sorted_wrt (\<lambda>a b. sort_key T a \<le> sort_key T b) result"
  proof (rule sorted_wrt_mono_rel[OF _ s])
    fix a b assume "a \<in> set result" "b \<in> set result" "\<not> lessTodaysTasks today b a"
    with qr lessTodaysTasks_key[OF T, of b a] show "sort_key T a \<le> sort_key T b"
      by (simp add: not_less)
  qed
qed


lemma mset_insert_sorted: "mset (insert_sorted lt x ys) = add_mset x (mset ys)"
  by (induction ys) simp_all

lemma set_insert_sorted: "set (insert_sorted lt x ys) = insert x (set ys)"
  by (induction ys) auto

lemma sorted_insert_sorted:
  assumes t: "transitive_ordering lt A" and "x \<in> A" "set ys \<subseteq> A"
    and "sorted_wrt (\<lambda>a b. \<not> lt b a) ys"
  shows "sorted_wrt (\<lambda>a b. \<not> lt b a) (insert_sorted lt x ys)"
  using assms(2-)
proof (induction ys)
  case Nil
  then show ?case by simp
next
  case (Cons y ys)
  from t have irr: "\<And>a. a \<in> A \<Longrightarrow> \<not> lt a a"
    and tr: "\<And>a b c. a \<in> A \<Longrightarrow> b \<in> A \<Longrightarrow> c \<in> A \<Longrightarrow> lt a b \<Longrightarrow> lt b c \<Longrightarrow> lt a c"
    unfolding transitive_ordering_def by blast+
  show ?case
  proof (cases "lt x y")
    case True
    have "\<not> lt z x" if "z \<in> set (y # ys)" for z
    proof
      assume zx: "lt z x"
      from that Cons.prems have zA: "z \<in> A" by auto
      from Cons.prems have yA: "y \<in> A" by simp
      from tr[OF zA \<open>x \<in> A\<close> yA zx True] have "lt z y" .
      with that Cons.prems(3) irr[OF yA] show False by auto
    qed
    with True Cons.prems show ?thesis by simp
  next
    case False
    with Cons show ?thesis by (auto simp: set_insert_sorted)
  qed
qed

lemma mset_foldl_insert:
  "mset (foldl (\<lambda>sorted x. insert_sorted lt x sorted) acc xs) = mset acc + mset xs"
  by (induction xs arbitrary: acc) (simp_all add: mset_insert_sorted)

lemma sorted_foldl_insert:
  assumes "transitive_ordering lt A"
  shows "set acc \<subseteq> A \<Longrightarrow> set xs \<subseteq> A \<Longrightarrow> sorted_wrt (\<lambda>a b. \<not> lt b a) acc \<Longrightarrow>
         sorted_wrt (\<lambda>a b. \<not> lt b a) (foldl (\<lambda>sorted x. insert_sorted lt x sorted) acc xs)"
proof (induction xs arbitrary: acc)
  case Nil
  then show ?case by simp
next
  case (Cons x xs)
  from Cons.prems have "sorted_wrt (\<lambda>a b. \<not> lt b a) (insert_sorted lt x acc)"
    by (intro sorted_insert_sorted[OF assms]) simp_all
  moreover from Cons.prems have "set (insert_sorted lt x acc) \<subseteq> A"
    by (simp add: set_insert_sorted)
  ultimately show ?case using Cons.prems by (simp add: Cons.IH)
qed

lemma insertion_sort_contract: "sort_Slice_contract insertion_sort"
proof -
  have "sorted_wrt (\<lambda>a b. \<not> lt b a) (insertion_sort lt xs)"
    if "transitive_ordering lt (set xs)" for lt :: "'a \<Rightarrow> 'a \<Rightarrow> bool" and xs
    unfolding insertion_sort_def by (rule sorted_foldl_insert[OF that]) simp_all
  moreover have "mset (insertion_sort lt xs) = mset xs" for lt :: "'a \<Rightarrow> 'a \<Rightarrow> bool" and xs
    by (simp add: insertion_sort_def mset_foldl_insert)
  ultimately show ?thesis unfolding sort_Slice_contract_def by blast
qed

lemma parse_sample_days:
  "time_Parse ''2024-04-29'' = Some (2024, 4, 29)"
  "time_Parse ''2024-04-30'' = Some (2024, 4, 30)"
  "time_Parse ''2024-05-01'' = Some (2024, 5, 1)"
  "time_Parse ''2024-05-02'' = Some (2024, 5, 2)"
  by (simp_all add: time_Parse_def is_digit_def digit_def daysIn_def isLeap_def)

lemma GetTodaysTasks_fetched6:
  "GetTodaysTasks insertion_sort ''2024-05-01'' None (Inr fetched6) =
     Inr [sampleTask ''f'' 3 ''2024-04-29'', sampleTask ''b'' 1 ''2024-04-30'',
          sampleTask ''e'' 4 ''2024-05-01'', sampleTask ''a'' 2 ''2024-05-01'']"
  by (simp add: GetTodaysTasks_def fetched6_def insertion_sort_def dueTodayOrOverdue_def
      lessTodaysTasks_def isOverdue_def parse_sample_days sampleTask_def noDueTask_def)



text \<open>
  C1, as the code has it. With \<open>sort.Slice\<close> as documented, in the result of
  \<open>GetTodaysTasks\<close> and of the cache's \<open>LoadTodaysTasks\<close> every task is overdue or due
  today, no task due today stands before an overdue task, overdue tasks stand in rising
  order of their due day and tasks due today in falling order of priority. Nothing is
  said of the order of tasks that tie: \<open>sort.Slice\<close> is not a stable sort.
\<close>

theorem todays_tasks_order:
  assumes "sort_Slice_contract sortSlice" and "time_Parse today = Some T"
    and "GetTodaysTasks sortSlice today None (Inr fetched) = Inr result \<or>
         LoadTodaysTasks sortSlice today (Inr fetched) = Inr result"
    and "i < j" and "j < length result"
  shows "(overdue_on T (result ! i) \<or> due_on T (result ! i)) \<and>
         (overdue_on T (result ! j) \<or> due_on T (result ! j)) \<and>
         \<not> (due_on T (result ! i) \<and> overdue_on T (result ! j)) \<and>
         (\<forall>d d'. due_day (result ! i) = Some d \<and> due_day (result ! j) = Some d' \<and>
                  d < T \<and> d' < T \<longrightarrow> d \<le> d') \<and>
         (due_on T (result ! i) \<and> due_on T (result ! j) \<longrightarrow>
            Priority (result ! j) \<le> Priority (result ! i))"
proof -
  from assms(3) have r: "GetTodaysTasks sortSlice today None (Inr fetched) = Inr result"
    by (simp add: LoadTodaysTasks_GetTodaysTasks)
  note m = sorted_by_key(1)[OF assms(1,2) r] and s = sorted_by_key(2)[OF assms(1,2) r]
  from m have "set result = set (filter (on_or_before T) fetched)" by (rule mset_eq_setD)
  with assms(4,5) have qi: "on_or_before T (result ! i)" and qj: "on_or_before T (result ! j)"
    using nth_mem[of i result] nth_mem[of j result] by auto
  from s assms(4,5) have k: "sort_key T (result ! i) \<le> sort_key T (result ! j)"
    by (simp add: sorted_wrt_iff_nth_less)
  from qi obtain di where di: "due_day (result ! i) = Some di" "di \<le> T"
    by (auto simp: on_or_before_def split: option.splits)
  from qj obtain dj where dj: "due_day (result ! j) = Some dj" "dj \<le> T"
    by (auto simp: on_or_before_def split: option.splits)
  from k di dj show ?thesis
    by (cases "di < T"; cases "dj < T")
       (auto simp: sort_key_def overdue_on_def due_on_def)
qed

theorem todays_tasks_order_witness:
  "sort_Slice_contract (insertion_sort :: (TodoistTask \<Rightarrow> TodoistTask \<Rightarrow> bool) \<Rightarrow> _) \<and>
   time_Parse ''2024-05-01'' = Some (2024, 5, 1) \<and>
   GetTodaysTasks insertion_sort ''2024-05-01'' None (Inr fetched6) =
     Inr [sampleTask ''f'' 3 ''2024-04-29'', sampleTask ''b'' 1 ''2024-04-30'',
          sampleTask ''e'' 4 ''2024-05-01'', sampleTask ''a'' 2 ''2024-05-01''] \<and>
   overdue_on (2024, 5, 1) (sampleTask ''f'' 3 ''2024-04-29'') \<and>
   overdue_on (2024, 5, 1) (sampleTask ''b'' 1 ''2024-04-30'') \<and>
   due_day (sampleTask ''f'' 3 ''2024-04-29'') = Some (2024, 4, 29) \<and>
   due_day (sampleTask ''b'' 1 ''2024-04-30'') = Some (2024, 4, 30) \<and>
   due_on (2024, 5, 1) (sampleTask ''e'' 4 ''2024-05-01'') \<and>
   due_on (2024, 5, 1) (sampleTask ''a'' 2 ''2024-05-01'') \<and>
   Priority (sampleTask ''a'' 2 ''2024-05-01'') \<le> Priority (sampleTask ''e'' 4 ''2024-05-01'')"
proof -
  note r = GetTodaysTasks_fetched6
  note th = todays_tasks_order[OF insertion_sort_contract parse_sample_days(3) disjI1[OF r]]
  have days: "due_day (sampleTask ''f'' 3 ''2024-04-29'') = Some (2024, 4, 29)"
    "due_day (sampleTask ''b'' 1 ''2024-04-30'') = Some (2024, 4, 30)"
    "due_day (sampleTask ''e'' 4 ''2024-05-01'') = Some (2024, 5, 1)"
    "due_day (sampleTask ''a'' 2 ''2024-05-01'') = Some (2024, 5, 1)"
    by (simp_all add: due_day_def sampleTask_def parse_sample_days)
  from th[of 0 1] th[of 2 3] th[of 1 2] days insertion_sort_contract parse_sample_days(3) r
  show ?thesis
    by (simp add: overdue_on_def due_on_def sampleTask_def)
qed

text \<open>
  Thirteen tasks due today, fetched in the order t01 to t13; t01 to t12 have priority 1
  and t13 has priority 2. Go's \<open>sort.Slice\<close> moves t13 to the front and leaves the
  twelve tasks that tie in the order t07, t03, t04, t05, t06, t01, t08, ..., t12, t02:
  the pivot, t07, is swapped to the front before the partition.
\<close>

lemma isOverdue_same_day: "\<not> isOverdue ''2024-05-01'' ''2024-05-01''"
  by (simp add: isOverdue_def parse_sample_days)

lemma lessTodaysTasks_same_day:
  "lessTodaysTasks ''2024-05-01'' (sampleTask i p ''2024-05-01'') (sampleTask j q ''2024-05-01'')
     = (q < p)"
  by (simp add: lessTodaysTasks_def sampleTask_def isOverdue_same_day parse_sample_days)

lemma list_update_numeral: "(x # xs)[numeral k := y] = x # xs[pred_numeral k := y]"
  by (simp add: numeral_eq_Suc)

lemma filter_fetched13: "filter (dueTodayOrOverdue ''2024-05-01'') fetched13 = fetched13"
  by (simp add: fetched13_def dueTodayOrOverdue_def sampleTask_def)

lemma sort_fetched13:
  "sort_Slice_short (lessTodaysTasks ''2024-05-01'') fetched13 =
     Some [sampleTask ''t13'' 2 ''2024-05-01'', sampleTask ''t07'' 1 ''2024-05-01'',
      sampleTask ''t03'' 1 ''2024-05-01'', sampleTask ''t04'' 1 ''2024-05-01'',
      sampleTask ''t05'' 1 ''2024-05-01'', sampleTask ''t06'' 1 ''2024-05-01'',
      sampleTask ''t01'' 1 ''2024-05-01'', sampleTask ''t08'' 1 ''2024-05-01'',
      sampleTask ''t09'' 1 ''2024-05-01'', sampleTask ''t10'' 1 ''2024-05-01'',
      sampleTask ''t11'' 1 ''2024-05-01'', sampleTask ''t12'' 1 ''2024-05-01'',
      sampleTask ''t02'' 1 ''2024-05-01'']"
  by (simp add: sort_Slice_short_def fetched13_def choosePivot_func_def median_func_def
      order2_func_def partialInsertionSort_func_def partition_func_def insertionSort_func_def
      at_index_def Swap_def lessTodaysTasks_same_day list_update_numeral Let_def
      insertion_shift.simps insertionSort_from.simps first_descent.simps scan_up.simps
      scan_down.simps partition_loop.simps)

theorem stable_sort_counterexample:
  "map ID fetched13 =
     [''t01'', ''t02'', ''t03'', ''t04'', ''t05'', ''t06'', ''t07'', ''t08'', ''t09'', ''t10'', ''t11'', ''t12'', ''t13''] \<and>
   map Priority fetched13 = [1, 1, 1, 1, 1, 1, 1, 1, 1, 1, 1, 1, 2] \<and>
   map_sum id (map ID) (GetTodaysTasks sort_Slice_go ''2024-05-01'' None (Inr fetched13)) =
     Inr [''t13'', ''t07'', ''t03'', ''t04'', ''t05'', ''t06'', ''t01'', ''t08'', ''t09'', ''t10'', ''t11'', ''t12'', ''t02''] \<and>
   map_sum id (map ID) (LoadTodaysTasks sort_Slice_go ''2024-05-01'' (Inr fetched13)) =
     Inr [''t13'', ''t07'', ''t03'', ''t04'', ''t05'', ''t06'', ''t01'', ''t08'', ''t09'', ''t10'', ''t11'', ''t12'', ''t02'']"
proof -
  have "GetTodaysTasks sort_Slice_go ''2024-05-01'' None (Inr fetched13) =
      Inr (the (sort_Slice_short (lessTodaysTasks ''2024-05-01'') fetched13))"
    by (simp add: GetTodaysTasks_def filter_fetched13 sort_Slice_go_def)
  then have g: "map_sum id (map ID) (GetTodaysTasks sort_Slice_go ''2024-05-01'' None (Inr fetched13)) =
     Inr [''t13'', ''t07'', ''t03'', ''t04'', ''t05'', ''t06'', ''t01'', ''t08'', ''t09'', ''t10'', ''t11'', ''t12'', ''t02'']"
    by (simp add: sort_fetched13 sampleTask_def)
  have "map ID fetched13 =
     [''t01'', ''t02'', ''t03'', ''t04'', ''t05'', ''t06'', ''t07'', ''t08'', ''t09'', ''t10'', ''t11'', ''t12'', ''t13'']"
    "map Priority fetched13 = [1, 1, 1, 1, 1, 1, 1, 1, 1, 1, 1, 1, 2]"
    by (simp_all add: fetched13_def sampleTask_def)
  with g show ?thesis by (simp add: LoadTodaysTasks_GetTodaysTasks)
qed

end
